theory Spec2Isabelle
  imports Main
begin

section \<open>Data model (app/database/models.py)\<close>

text \<open>
  Identifiers are the UUID primary keys of the tables; the model takes them as natural
  numbers. Timestamps are instants in microseconds since the epoch (the resolution of
  Python's \<^verbatim>\<open>datetime\<close>), so \<^verbatim>\<open>timedelta(minutes=2)\<close> is 120000000.

  Every table is the list of its rows. A record keeps the columns that a request handler
  reads or writes. A table whose rows a handler updates or deletes keeps its primary key
  (the ORM addresses a loaded row by it); \<^verbatim>\<open>messages\<close> and \<^verbatim>\<open>api_keys\<close> are insert-only
  and their rows carry no key. Columns that the code tests for \<^verbatim>\<open>None\<close> are options.
\<close>

type_synonym uuid = nat
type_synonym datetime = int

record Parent =
  p_id :: uuid
  p_name :: string
  p_email :: string
  p_password_hash :: string
  p_role :: string
  p_token_version :: int
  p_is_active :: bool

record Toy =
  t_id :: uuid
  t_toy_uuid :: uuid
  t_is_active :: bool
  t_last_seen :: "datetime option"
  t_active_child_id :: "uuid option"

record Child =
  c_id :: uuid
  c_parent_id :: uuid
  c_toy_id :: "uuid option"
  c_child_name :: string
  c_age :: int

record ChildAnalytics =
  a_id :: uuid
  a_child_id :: uuid
  a_total_questions :: int
  a_weekly_questions :: int
  a_last_active_date :: "int option"

record Conversation =
  cv_id :: uuid
  cv_child_id :: uuid
  cv_last_activity :: datetime

datatype RoleEnum = user | assistant | system

record Message =
  m_conversation_id :: uuid
  m_role :: RoleEnum
  m_content :: string

record RefreshToken =
  rt_id :: uuid
  rt_parent_id :: uuid
  rt_token_hash :: string
  rt_user_agent :: "string option"
  rt_expires_at :: datetime

record APIKey =
  k_key :: string
  k_owner :: string
  k_revoked :: bool

record db =
  parents :: "Parent list"
  toys :: "Toy list"
  children :: "Child list"
  child_analytics :: "ChildAnalytics list"
  conversations :: "Conversation list"
  messages :: "Message list"
  refresh_tokens :: "RefreshToken list"
  api_keys :: "APIKey list"

text \<open>
  A handler ends by raising \<^verbatim>\<open>HTTPException(status, detail)\<close> or by an exception that
  nothing catches (the framework answers 500), or it returns its value. The exceptions
  that nothing catches are the database's \<^verbatim>\<open>IntegrityError\<close> and \<^verbatim>\<open>DataError\<close> and Python's
  \<^verbatim>\<open>AttributeError\<close>; the session is then closed without a commit.
\<close>

datatype error = HTTPException nat string | IntegrityError | DataError | AttributeError

fun status_code :: "error \<Rightarrow> nat" where
  "status_code (HTTPException code detail) = code"
| "status_code IntegrityError = 500"
| "status_code DataError = 500"
| "status_code AttributeError = 500"

text \<open>
  A string is its UTF-8 byte string: \<^verbatim>\<open>len(s.encode("utf-8"))\<close> is its length, and \<^verbatim>\<open>len(s)\<close>
  counts its code points, the bytes that are not continuation bytes (\<^verbatim>\<open>0x80\<close> to \<^verbatim>\<open>0xBF\<close>).
\<close>

definition is_continuation :: "char \<Rightarrow> bool" where
  "is_continuation c \<longleftrightarrow> 128 \<le> (of_char c :: nat) \<and> (of_char c :: nat) < 192"

definition py_len :: "string \<Rightarrow> nat" where
  "py_len s = length (filter (\<lambda>c. \<not> is_continuation c) s)"

text \<open>
  What the columns of the PostgreSQL store hold. An \<^verbatim>\<open>Integer\<close> column holds 32 bits. No
  string column holds the character NUL. A \<^verbatim>\<open>String(n)\<close> column holds \<open>n\<close> characters: a
  longer value is refused, unless the characters in excess are all spaces, which are then
  cut off. A value that a column does not hold raises \<^verbatim>\<open>DataError\<close> when the row is written.
\<close>

definition fits_integer :: "int \<Rightarrow> bool" where
  "fits_integer i \<longleftrightarrow> - 2147483648 \<le> i \<and> i \<le> 2147483647"

definition fits_text :: "string \<Rightarrow> bool" where
  "fits_text s \<longleftrightarrow> list_all (\<lambda>c. c \<noteq> CHR 0x00) s"


fun take_chars :: "nat \<Rightarrow> string \<Rightarrow> string" where
  "take_chars n [] = []"
| "take_chars n (c # cs) =
     (if is_continuation c then c # take_chars n cs
      else (case n of 0 \<Rightarrow> [] | Suc m \<Rightarrow> c # take_chars m cs))"

definition pg_varchar :: "nat \<Rightarrow> string \<Rightarrow> error + string" where
  "pg_varchar n s =
     (if \<not> fits_text s then Inl DataError
      else if py_len s \<le> n then Inr s
      else
        (let kept = take_chars n s in
         if list_all (\<lambda>c. c = CHR '' '') (drop (length kept) s) then Inr kept
         else Inl DataError))"

text \<open>
  Writing an attribute of a loaded ORM object and committing rewrites the row with the
  object's primary key; \<^verbatim>\<open>db.delete(row)\<close> removes it.
\<close>

definition update_row :: "('r \<Rightarrow> uuid) \<Rightarrow> 'r \<Rightarrow> 'r list \<Rightarrow> 'r list" where
  "update_row pk obj rows = map (\<lambda>r. if pk r = pk obj then obj else r) rows"

definition delete_row :: "('r \<Rightarrow> uuid) \<Rightarrow> 'r \<Rightarrow> 'r list \<Rightarrow> 'r list" where
  "delete_row pk obj rows = filter (\<lambda>r. pk r \<noteq> pk obj) rows"

text \<open>
  An \<^verbatim>\<open>INSERT\<close> that repeats a primary key or a \<^verbatim>\<open>unique\<close> column of an existing row
  raises \<^verbatim>\<open>IntegrityError\<close>; \<open>conflict row r\<close> says that \<open>row\<close> collides with the stored
  \<open>r\<close>. The rows a handler inserts refer only to rows it loaded in the same request, so
  foreign keys are not checked again.
\<close>

definition insert_row :: "('r \<Rightarrow> 'r \<Rightarrow> bool) \<Rightarrow> 'r \<Rightarrow> 'r list \<Rightarrow> error + 'r list" where
  "insert_row conflict row rows =
     (if list_ex (conflict row) rows then Inl IntegrityError else Inr (rows @ [row]))"

section \<open>Authentication (app/auth.py)\<close>

text \<open>
  The libraries the code calls are parameters of the model: \<open>hmac_sha256\<close> is
  \<^verbatim>\<open>hmac.new(SECRET_KEY.encode(), raw.encode(), hashlib.sha256).hexdigest()\<close> as a function
  of \<^verbatim>\<open>raw\<close>, \<open>pwd_ctx_hash\<close> and \<open>pwd_ctx_verify\<close> are passlib's bcrypt context.
\<close>

record externals =
  hmac_sha256 :: "string \<Rightarrow> string"
  pwd_ctx_hash :: "string \<Rightarrow> string"
  pwd_ctx_verify :: "string \<Rightarrow> string \<Rightarrow> bool"

definition ACCESS_TOKEN_MINUTES :: int where
  "ACCESS_TOKEN_MINUTES = 15"

definition REFRESH_TOKEN_DAYS :: int where
  "REFRESH_TOKEN_DAYS = 30"

definition hash_password :: "externals \<Rightarrow> string \<Rightarrow> string" where
  "hash_password ext password = pwd_ctx_hash ext password"

definition verify_password :: "externals \<Rightarrow> string \<Rightarrow> string \<Rightarrow> bool" where
  "verify_password ext raw hashed = pwd_ctx_verify ext raw hashed"

text \<open>
  A bearer credential either verifies under \<^verbatim>\<open>SECRET_KEY\<close> and then carries the payload
  that \<^verbatim>\<open>jwt.encode\<close> signed, or it does not (\<open>Malformed\<close>). The \<^verbatim>\<open>exp\<close> claim is in whole
  seconds, and \<^verbatim>\<open>jwt.decode\<close> rejects a token whose \<^verbatim>\<open>exp\<close> is before the current second with
  \<^verbatim>\<open>ExpiredSignatureError\<close>. For every other error of \<^verbatim>\<open>jwt.decode\<close> the second \<^verbatim>\<open>except\<close>
  clause is reached, and \<^verbatim>\<open>jose.jwt\<close> has no attribute \<^verbatim>\<open>InvalidTokenError\<close>: looking it up
  raises \<^verbatim>\<open>AttributeError\<close>, which nothing catches.
\<close>

record payload =
  jwt_sub :: "uuid option"
  jwt_role :: string
  jwt_token_version :: "int option"
  jwt_exp :: int

datatype access_token = Signed payload | Malformed

definition create_access_token :: "Parent \<Rightarrow> datetime \<Rightarrow> access_token" where
  "create_access_token parent now =
     (let expire = now + ACCESS_TOKEN_MINUTES * 60000000 in
      Signed \<lparr>jwt_sub = Some (p_id parent), jwt_role = p_role parent,
              jwt_token_version = Some (p_token_version parent),
              jwt_exp = expire div 1000000\<rparr>)"

definition decode_access_token :: "datetime \<Rightarrow> access_token \<Rightarrow> error + payload" where
  "decode_access_token now token =
     (case token of
        Malformed \<Rightarrow> Inl AttributeError
      | Signed claims \<Rightarrow>
          if jwt_exp claims < now div 1000000
          then Inl (HTTPException 401 ''Access token expired'')
          else Inr claims)"

definition hash_refresh_token :: "externals \<Rightarrow> string \<Rightarrow> string" where
  "hash_refresh_token ext raw = hmac_sha256 ext raw"

definition refresh_token_conflict :: "RefreshToken \<Rightarrow> RefreshToken \<Rightarrow> bool" where
  "refresh_token_conflict row r \<longleftrightarrow> rt_id r = rt_id row \<or> rt_token_hash r = rt_token_hash row"

text \<open>
  \<^verbatim>\<open>user_agent\<close> is a \<^verbatim>\<open>String(255)\<close> column; \<^verbatim>\<open>token_hash\<close> receives a hexadecimal digest of
  64 characters.
\<close>

definition store_user_agent :: "string option \<Rightarrow> error + string option" where
  "store_user_agent user_agent =
     (case user_agent of
        None \<Rightarrow> Inr None
      | Some ua \<Rightarrow> (case pg_varchar 255 ua of Inl e \<Rightarrow> Inl e | Inr stored \<Rightarrow> Inr (Some stored)))"

definition store_refresh_token ::
  "externals \<Rightarrow> db \<Rightarrow> uuid \<Rightarrow> string \<Rightarrow> string option \<Rightarrow> datetime \<Rightarrow> uuid \<Rightarrow> error + db" where
  "store_refresh_token ext d parent_id raw_token user_agent now new_id =
     (let expires_at = now + REFRESH_TOKEN_DAYS * 86400000000 in
      case store_user_agent user_agent of
        Inl e \<Rightarrow> Inl e
      | Inr stored_user_agent \<Rightarrow>
          (let token = \<lparr>rt_id = new_id, rt_parent_id = parent_id,
                         rt_token_hash = hash_refresh_token ext raw_token,
                         rt_user_agent = stored_user_agent, rt_expires_at = expires_at\<rparr>
           in case insert_row refresh_token_conflict token (refresh_tokens d) of
                Inl e \<Rightarrow> Inl e
              | Inr rows \<Rightarrow> Inr (d\<lparr>refresh_tokens := rows\<rparr>)))"

text \<open>The loop of \<^verbatim>\<open>revoke_all_refresh_tokens\<close> deletes the selected rows one by one.\<close>

definition revoke_all_refresh_tokens :: "db \<Rightarrow> uuid \<Rightarrow> db" where
  "revoke_all_refresh_tokens d parent_id =
     fold (\<lambda>row d'. d'\<lparr>refresh_tokens := delete_row rt_id row (refresh_tokens d')\<rparr>)
       (filter (\<lambda>r. rt_parent_id r = parent_id) (refresh_tokens d)) d"

record token_pair =
  tp_access_token :: access_token
  tp_refresh_token :: string
  tp_token_type :: string
  tp_expires_in :: int

text \<open>
  \<open>refresh_raw\<close> is the value of \<^verbatim>\<open>secrets.token_urlsafe(64)\<close> and \<open>new_id\<close> the
  \<^verbatim>\<open>uuid.uuid4()\<close> default of the new row: both are inputs of the model.
\<close>

definition create_token_pair ::
  "externals \<Rightarrow> db \<Rightarrow> Parent \<Rightarrow> string option \<Rightarrow> datetime \<Rightarrow> uuid \<Rightarrow> string
     \<Rightarrow> (error + token_pair) \<times> db" where
  "create_token_pair ext d parent user_agent now new_id refresh_raw =
     (let access_token = create_access_token parent now in
      case store_refresh_token ext d (p_id parent) refresh_raw user_agent now new_id of
        Inl e \<Rightarrow> (Inl e, d)
      | Inr d' \<Rightarrow>
          (Inr \<lparr>tp_access_token = access_token, tp_refresh_token = refresh_raw,
                tp_token_type = ''bearer'', tp_expires_in = ACCESS_TOKEN_MINUTES * 60\<rparr>, d'))"

definition get_current_parent :: "db \<Rightarrow> datetime \<Rightarrow> access_token \<Rightarrow> error + Parent" where
  "get_current_parent d now credentials =
     (case decode_access_token now credentials of
        Inl e \<Rightarrow> Inl e
      | Inr claims \<Rightarrow>
          (case jwt_sub claims of
             None \<Rightarrow> Inl (HTTPException 401 ''Invalid token'')
           | Some parent_id \<Rightarrow>
               (case find (\<lambda>p. p_id p = parent_id) (parents d) of
                  None \<Rightarrow> Inl (HTTPException 401 ''User inactive or not found'')
                | Some parent \<Rightarrow>
                    if \<not> p_is_active parent
                    then Inl (HTTPException 401 ''User inactive or not found'')
                    else if Some (p_token_version parent) \<noteq> jwt_token_version claims
                    then Inl (HTTPException 401 ''Token revoked'')
                    else Inr parent)))"

definition hash_api_key :: "externals \<Rightarrow> string \<Rightarrow> string" where
  "hash_api_key ext raw = hmac_sha256 ext raw"

text \<open>\<^verbatim>\<open>if not api_key\<close> holds for an absent header and for an empty one.\<close>

definition verify_api_key :: "externals \<Rightarrow> db \<Rightarrow> string option \<Rightarrow> error + APIKey" where
  "verify_api_key ext d api_key =
     (case api_key of
        None \<Rightarrow> Inl (HTTPException 401 ''API key required'')
      | Some raw \<Rightarrow>
          if raw = [] then Inl (HTTPException 401 ''API key required'')
          else
            (let hashed = hash_api_key ext raw in
             case find (\<lambda>k. k_key k = hashed) (api_keys d) of
               None \<Rightarrow> Inl (HTTPException 403 ''Invalid or revoked API key'')
             | Some key \<Rightarrow>
                 if k_revoked key then Inl (HTTPException 403 ''Invalid or revoked API key'')
                 else Inr key))"

section \<open>Auth routes (app/routes/auth_routes.py)\<close>

definition parent_conflict :: "Parent \<Rightarrow> Parent \<Rightarrow> bool" where
  "parent_conflict row r \<longleftrightarrow> p_id r = p_id row \<or> p_email r = p_email row"

definition signup ::
  "externals \<Rightarrow> db \<Rightarrow> string \<Rightarrow> string \<Rightarrow> string \<Rightarrow> uuid \<Rightarrow> (error + uuid \<times> string) \<times> db" where
  "signup ext d name email password new_id =
     (if py_len password < 10
      then (Inl (HTTPException 400 ''Password must be at least 10 characters''), d)
      else if length password > 72
      then (Inl (HTTPException 400 ''Password too long (max 72 characters allowed)''), d)
      else
        (case find (\<lambda>p. p_email p = email) (parents d) of
           Some existing \<Rightarrow> (Inl (HTTPException 400 ''Email already exists''), d)
         | None \<Rightarrow>
             (case pg_varchar 100 name of
                Inl e \<Rightarrow> (Inl e, d)
              | Inr stored_name \<Rightarrow>
                  (case pg_varchar 150 email of
                     Inl e \<Rightarrow> (Inl e, d)
                   | Inr stored_email \<Rightarrow>
                       (let parent = \<lparr>p_id = new_id, p_name = stored_name,
                                       p_email = stored_email,
                                       p_password_hash = hash_password ext password,
                                       p_role = ''parent'', p_token_version = 1,
                                       p_is_active = True\<rparr>
                        in case insert_row parent_conflict parent (parents d) of
                             Inl e \<Rightarrow> (Inl e, d)
                           | Inr rows \<Rightarrow>
                               (Inr (p_id parent, p_email parent), d\<lparr>parents := rows\<rparr>))))))"

definition login ::
  "externals \<Rightarrow> db \<Rightarrow> string \<Rightarrow> string \<Rightarrow> string option \<Rightarrow> datetime \<Rightarrow> uuid \<Rightarrow> string
     \<Rightarrow> (error + token_pair) \<times> db" where
  "login ext d email password user_agent now new_id refresh_raw =
     (case find (\<lambda>p. p_email p = email) (parents d) of
        None \<Rightarrow> (Inl (HTTPException 401 ''Invalid credentials''), d)
      | Some parent \<Rightarrow>
          if \<not> verify_password ext password (p_password_hash parent)
          then (Inl (HTTPException 401 ''Invalid credentials''), d)
          else if \<not> p_is_active parent
          then (Inl (HTTPException 403 ''Account disabled''), d)
          else create_token_pair ext d parent user_agent now new_id refresh_raw)"

text \<open>
  \<^verbatim>\<open>refresh\<close> commits the removal of the stored row, on the expired path and on the
  rotation path, before anything else is written.
\<close>

definition refresh ::
  "externals \<Rightarrow> db \<Rightarrow> string \<Rightarrow> datetime \<Rightarrow> uuid \<Rightarrow> string \<Rightarrow> (error + token_pair) \<times> db" where
  "refresh ext d refresh_token now new_id refresh_raw =
     (let token_hash = hash_refresh_token ext refresh_token in
      case find (\<lambda>r. rt_token_hash r = token_hash) (refresh_tokens d) of
        None \<Rightarrow> (Inl (HTTPException 401 ''Invalid refresh token''), d)
      | Some stored \<Rightarrow>
          if rt_expires_at stored < now
          then (Inl (HTTPException 401 ''Refresh token expired''),
                d\<lparr>refresh_tokens := delete_row rt_id stored (refresh_tokens d)\<rparr>)
          else
            (case find (\<lambda>p. p_id p = rt_parent_id stored) (parents d) of
               None \<Rightarrow> (Inl (HTTPException 401 ''User inactive''), d)
             | Some parent \<Rightarrow>
                 if \<not> p_is_active parent then (Inl (HTTPException 401 ''User inactive''), d)
                 else
                   create_token_pair ext
                     (d\<lparr>refresh_tokens := delete_row rt_id stored (refresh_tokens d)\<rparr>)
                     parent None now new_id refresh_raw))"

text \<open>
  \<^verbatim>\<open>logout\<close> bumps the version on the loaded parent; the commit inside
  \<^verbatim>\<open>revoke_all_refresh_tokens\<close> and the final commit write it with the deletions.
  \<^verbatim>\<open>token_version\<close> is an \<^verbatim>\<open>Integer\<close> column: a version that it does not hold raises
  \<^verbatim>\<open>DataError\<close> when the parent is written, and nothing is committed.
\<close>

definition logout :: "db \<Rightarrow> Parent \<Rightarrow> (error + string) \<times> db" where
  "logout d current_parent =
     (let current_parent' =
            current_parent\<lparr>p_token_version := p_token_version current_parent + 1\<rparr>
      in if \<not> fits_integer (p_token_version current_parent') then (Inl DataError, d)
         else
           (let d' = revoke_all_refresh_tokens d (p_id current_parent')
            in (Inr ''logged_out'',
                d'\<lparr>parents := update_row p_id current_parent' (parents d')\<rparr>)))"

definition api_key_conflict :: "APIKey \<Rightarrow> APIKey \<Rightarrow> bool" where
  "api_key_conflict row r \<longleftrightarrow> k_key r = k_key row"

text \<open>\<open>raw_key\<close> is the value of \<^verbatim>\<open>secrets.token_urlsafe(48)\<close>.\<close>

definition create_api_key ::
  "externals \<Rightarrow> db \<Rightarrow> Parent \<Rightarrow> string \<Rightarrow> string \<Rightarrow> (error + string \<times> string) \<times> db" where
  "create_api_key ext d current_parent owner raw_key =
     (if p_role current_parent \<noteq> ''admin'' then (Inl (HTTPException 403 ''Admin only''), d)
      else
        (let hashed = hash_api_key ext raw_key;
             api_key = \<lparr>k_key = hashed, k_owner = owner, k_revoked = False\<rparr>
         in if \<not> fits_text owner then (Inl DataError, d)
            else
              (case insert_row api_key_conflict api_key (api_keys d) of
                 Inl e \<Rightarrow> (Inl e, d)
               | Inr rows \<Rightarrow> (Inr (raw_key, owner), d\<lparr>api_keys := rows\<rparr>))))"

section \<open>Parent routes (app/routes/parent_routes.py)\<close>

definition child_conflict :: "Child \<Rightarrow> Child \<Rightarrow> bool" where
  "child_conflict row r \<longleftrightarrow> c_id r = c_id row"

definition analytics_conflict :: "ChildAnalytics \<Rightarrow> ChildAnalytics \<Rightarrow> bool" where
  "analytics_conflict row r \<longleftrightarrow> a_id r = a_id row \<or> a_child_id r = a_child_id row"

text \<open>
  The \<^verbatim>\<open>try\<close> block of \<^verbatim>\<open>create_child\<close>: the flush inserts the child, the commit inserts
  its analytics row with the column defaults. \<open>new_child_id\<close> and \<open>new_analytics_id\<close> are
  the \<^verbatim>\<open>uuid.uuid4()\<close> defaults of the two rows. The request schema takes any \<^verbatim>\<open>int\<close> as
  \<^verbatim>\<open>age\<close> and any \<^verbatim>\<open>str\<close> as \<^verbatim>\<open>child_name\<close>; the columns are \<^verbatim>\<open>Integer\<close> and \<^verbatim>\<open>String(100)\<close>,
  and the flush raises \<^verbatim>\<open>DataError\<close> for a value they do not hold, before any key is
  compared.
\<close>

definition create_child_try ::
  "db \<Rightarrow> Parent \<Rightarrow> string \<Rightarrow> int \<Rightarrow> uuid \<Rightarrow> uuid \<Rightarrow> error + Child \<times> db" where
  "create_child_try d current_parent child_name age new_child_id new_analytics_id =
     (if \<not> fits_integer age then Inl DataError
      else
        (case pg_varchar 100 child_name of
           Inl e \<Rightarrow> Inl e
         | Inr stored_name \<Rightarrow>
             (let child = \<lparr>c_id = new_child_id, c_parent_id = p_id current_parent,
                            c_toy_id = None, c_child_name = stored_name, c_age = age\<rparr>
              in case insert_row child_conflict child (children d) of
                   Inl e \<Rightarrow> Inl e
                 | Inr child_rows \<Rightarrow>
                     (let analytics = \<lparr>a_id = new_analytics_id, a_child_id = c_id child,
                                        a_total_questions = 0, a_weekly_questions = 0,
                                        a_last_active_date = None\<rparr>
                      in case insert_row analytics_conflict analytics (child_analytics d) of
                           Inl e \<Rightarrow> Inl e
                         | Inr analytics_rows \<Rightarrow>
                             Inr (child, d\<lparr>children := child_rows,
                                          child_analytics := analytics_rows\<rparr>)))))"

text \<open>
  The \<^verbatim>\<open>except IntegrityError\<close> clause rolls back to the state before the request. Any
  other exception of the \<^verbatim>\<open>try\<close> block leaves the handler; nothing was committed.
\<close>

definition create_child ::
  "db \<Rightarrow> Parent \<Rightarrow> string \<Rightarrow> int \<Rightarrow> uuid \<Rightarrow> uuid \<Rightarrow> (error + Child) \<times> db" where
  "create_child d current_parent child_name age new_child_id new_analytics_id =
     (let count = length (filter (\<lambda>c. c_parent_id c = p_id current_parent) (children d)) in
      if count \<ge> 3
      then (Inl (HTTPException 409 ''Maximum 3 children allowed per parent''), d)
      else
        (case create_child_try d current_parent child_name age new_child_id new_analytics_id of
           Inr (child, d') \<Rightarrow> (Inr child, d')
         | Inl IntegrityError \<Rightarrow> (Inl (HTTPException 409 ''Child creation conflict''), d)
         | Inl e \<Rightarrow> (Inl e, d)))"

text \<open>
  The query of \<^verbatim>\<open>get_toy_status\<close>, \<^verbatim>\<open>get_active_child\<close> and \<^verbatim>\<open>set_active_child\<close>: the toy
  with this \<^verbatim>\<open>toy_uuid\<close>, joined to a child of the parent that is paired with it.
\<close>

definition find_parent_toy :: "db \<Rightarrow> Parent \<Rightarrow> uuid \<Rightarrow> Toy option" where
  "find_parent_toy d parent toy_uuid =
     find (\<lambda>t. t_toy_uuid t = toy_uuid \<and>
                list_ex (\<lambda>c. c_toy_id c = Some (t_id t) \<and> c_parent_id c = p_id parent) (children d))
       (toys d)"

record toy_status =
  ts_toy_uuid :: uuid
  ts_is_active :: bool
  ts_last_seen :: "datetime option"

definition get_toy_status :: "db \<Rightarrow> Parent \<Rightarrow> uuid \<Rightarrow> datetime \<Rightarrow> error + toy_status" where
  "get_toy_status d parent toy_uuid now =
     (case find_parent_toy d parent toy_uuid of
        None \<Rightarrow> Inl (HTTPException 404 ''Toy not found'')
      | Some toy \<Rightarrow>
          (case t_last_seen toy of
             Some last_seen \<Rightarrow>
               Inr \<lparr>ts_toy_uuid = toy_uuid, ts_is_active = (now - last_seen < 2 * 60000000),
                    ts_last_seen = Some last_seen\<rparr>
           | None \<Rightarrow>
               Inr \<lparr>ts_toy_uuid = toy_uuid, ts_is_active = False, ts_last_seen = None\<rparr>))"

section \<open>Toy routes (app/routes/toy_routes.py)\<close>

datatype pair_status = already_paired | paired

definition pair_toy ::
  "db \<Rightarrow> Parent \<Rightarrow> uuid \<Rightarrow> uuid \<Rightarrow> datetime \<Rightarrow> (error + pair_status) \<times> db" where
  "pair_toy d parent toy_uuid child_id now =
     (case find (\<lambda>c. c_id c = child_id \<and> c_parent_id c = p_id parent) (children d) of
        None \<Rightarrow> (Inl (HTTPException 403 ''Child not owned by parent''), d)
      | Some child \<Rightarrow>
          (case find (\<lambda>t. t_toy_uuid t = toy_uuid) (toys d) of
             None \<Rightarrow> (Inl (HTTPException 404 ''Toy not found''), d)
           | Some toy \<Rightarrow>
               if c_toy_id child = Some (t_id toy) then (Inr already_paired, d)
               else
                 (Inr paired,
                  d\<lparr>children := update_row c_id (child\<lparr>c_toy_id := Some (t_id toy)\<rparr>) (children d),
                    toys := update_row t_id
                      (toy\<lparr>t_is_active := True, t_last_seen := Some now\<rparr>) (toys d)\<rparr>)))"

record active_child_set =
  acs_status :: string
  acs_toy_uuid :: uuid
  acs_child_id :: uuid

definition set_active_child ::
  "db \<Rightarrow> Parent \<Rightarrow> uuid \<Rightarrow> uuid \<Rightarrow> (error + active_child_set) \<times> db" where
  "set_active_child d parent toy_uuid child_id =
     (case find (\<lambda>c. c_id c = child_id \<and> c_parent_id c = p_id parent) (children d) of
        None \<Rightarrow> (Inl (HTTPException 403 ''Child not owned by parent''), d)
      | Some child \<Rightarrow>
          (case find_parent_toy d parent toy_uuid of
             None \<Rightarrow> (Inl (HTTPException 404 ''Toy not found or unauthorized''), d)
           | Some toy \<Rightarrow>
               (Inr \<lparr>acs_status = ''active_child_set'', acs_toy_uuid = toy_uuid,
                     acs_child_id = child_id\<rparr>,
                d\<lparr>toys := update_row t_id (toy\<lparr>t_active_child_id := Some (c_id child)\<rparr>)
                             (toys d)\<rparr>)))"

text \<open>
  \<^verbatim>\<open>order_by(Conversation.last_activity.desc())\<close> followed by \<^verbatim>\<open>first()\<close>: the row with the
  greatest \<^verbatim>\<open>last_activity\<close>, the earliest stored one among equals.
\<close>

fun latest_conversation :: "Conversation list \<Rightarrow> Conversation option" where
  "latest_conversation [] = None"
| "latest_conversation (x # xs) =
     (case latest_conversation xs of
        None \<Rightarrow> Some x
      | Some y \<Rightarrow> if cv_last_activity x < cv_last_activity y then Some y else Some x)"

definition conversation_conflict :: "Conversation \<Rightarrow> Conversation \<Rightarrow> bool" where
  "conversation_conflict row r \<longleftrightarrow> cv_id r = cv_id row"

text \<open>
  Step 3 of \<^verbatim>\<open>toy_ask\<close>: the child's current conversation, or a new one that the flush
  inserts under the \<^verbatim>\<open>uuid.uuid4()\<close> default \<open>new_id\<close>. The result is the conversation and
  the table that holds it.
\<close>

definition get_or_create_conversation ::
  "db \<Rightarrow> uuid \<Rightarrow> datetime \<Rightarrow> uuid \<Rightarrow> error + Conversation \<times> Conversation list" where
  "get_or_create_conversation d child_id now new_id =
     (case latest_conversation (filter (\<lambda>c. cv_child_id c = child_id) (conversations d)) of
        Some conversation \<Rightarrow> Inr (conversation, conversations d)
      | None \<Rightarrow>
          (let conversation = \<lparr>cv_id = new_id, cv_child_id = child_id, cv_last_activity = now\<rparr>
           in case insert_row conversation_conflict conversation (conversations d) of
                Inl e \<Rightarrow> Inl e
              | Inr rows \<Rightarrow> Inr (conversation, rows)))"

record ToyAskResponse =
  conversation_id :: uuid
  answer :: string

text \<open>
  Step 6 of \<^verbatim>\<open>toy_ask\<close>: the counters of the child's analytics row, when there is one, go up
  by one. They are \<^verbatim>\<open>Integer\<close> columns, and the commit raises \<^verbatim>\<open>DataError\<close> for a value
  they do not hold.
\<close>

definition update_analytics ::
  "ChildAnalytics list \<Rightarrow> uuid \<Rightarrow> datetime \<Rightarrow> error + ChildAnalytics list" where
  "update_analytics rows child_id now =
     (case find (\<lambda>a. a_child_id a = child_id) rows of
        None \<Rightarrow> Inr rows
      | Some analytics \<Rightarrow>
          (let analytics' =
                 analytics\<lparr>a_total_questions := a_total_questions analytics + 1,
                           a_weekly_questions := a_weekly_questions analytics + 1,
                           a_last_active_date := Some (now div 86400000000)\<rparr>
           in if fits_integer (a_total_questions analytics')
                 \<and> fits_integer (a_weekly_questions analytics')
              then Inr (update_row a_id analytics' rows)
              else Inl DataError))"

text \<open>
  The two messages are flushed by the query of step 6, and \<^verbatim>\<open>content\<close> is a \<^verbatim>\<open>Text\<close> column:
  a question with the character NUL raises \<^verbatim>\<open>DataError\<close> there. Nothing of a request that
  ends in an exception is committed.
\<close>

definition toy_ask ::
  "db \<Rightarrow> string \<Rightarrow> uuid \<Rightarrow> datetime \<Rightarrow> uuid \<Rightarrow> (error + ToyAskResponse) \<times> db" where
  "toy_ask d question toy_uuid now new_id =
     (case find (\<lambda>t. t_toy_uuid t = toy_uuid) (toys d) of
        None \<Rightarrow> (Inl (HTTPException 401 ''Invalid or inactive toy''), d)
      | Some toy \<Rightarrow>
          if \<not> t_is_active toy then (Inl (HTTPException 401 ''Invalid or inactive toy''), d)
          else
            (case t_active_child_id toy of
               None \<Rightarrow> (Inl (HTTPException 409 ''No active child set on toy''), d)
             | Some active_child_id \<Rightarrow>
                 (case find (\<lambda>c. c_id c = active_child_id) (children d) of
                    None \<Rightarrow> (Inl (HTTPException 404 ''Active child not found''), d)
                  | Some child \<Rightarrow>
                      (case get_or_create_conversation d (c_id child) now new_id of
                         Inl e \<Rightarrow> (Inl e, d)
                       | Inr (conversation, rows) \<Rightarrow>
                           (let conversation' = conversation\<lparr>cv_last_activity := now\<rparr>;
                                user_msg = \<lparr>m_conversation_id = cv_id conversation',
                                            m_role = user, m_content = question\<rparr>;
                                ai_answer = ''Answer to: '' @ question;
                                assistant_msg = \<lparr>m_conversation_id = cv_id conversation',
                                                 m_role = assistant, m_content = ai_answer\<rparr>
                            in if \<not> (fits_text question \<and> fits_text ai_answer)
                               then (Inl DataError, d)
                               else
                                 (case update_analytics (child_analytics d) (c_id child) now of
                                    Inl e \<Rightarrow> (Inl e, d)
                                  | Inr analytics_rows \<Rightarrow>
                                      (Inr \<lparr>conversation_id = cv_id conversation',
                                            answer = ai_answer\<rparr>,
                                       d\<lparr>conversations := update_row cv_id conversation' rows,
                                         messages := messages d @ [user_msg, assistant_msg],
                                         child_analytics := analytics_rows\<rparr>)))))))"

definition toy_heartbeat :: "db \<Rightarrow> uuid \<Rightarrow> datetime \<Rightarrow> (error + string) \<times> db" where
  "toy_heartbeat d toy_uuid now =
     (case find (\<lambda>t. t_toy_uuid t = toy_uuid) (toys d) of
        None \<Rightarrow> (Inl (HTTPException 401 ''Unknown toy''), d)
      | Some toy \<Rightarrow>
          (Inr ''ok'',
           d\<lparr>toys := update_row t_id (toy\<lparr>t_last_seen := Some now, t_is_active := True\<rparr>)
                        (toys d)\<rparr>))"

section \<open>The application (app/main.py)\<close>

text \<open>
  A route runs its \<^verbatim>\<open>Depends\<close> guard first and its handler only when the guard returns.
\<close>

definition depends_current_parent ::
  "db \<Rightarrow> datetime \<Rightarrow> access_token \<Rightarrow> (Parent \<Rightarrow> (error + 'a) \<times> db) \<Rightarrow> (error + 'a) \<times> db" where
  "depends_current_parent d now credentials handler =
     (case get_current_parent d now credentials of
        Inl e \<Rightarrow> (Inl e, d)
      | Inr parent \<Rightarrow> handler parent)"

definition depends_api_key ::
  "externals \<Rightarrow> db \<Rightarrow> string option \<Rightarrow> (APIKey \<Rightarrow> (error + 'a) \<times> db) \<Rightarrow> (error + 'a) \<times> db" where
  "depends_api_key ext d api_key handler =
     (case verify_api_key ext d api_key of
        Inl e \<Rightarrow> (Inl e, d)
      | Inr key \<Rightarrow> handler key)"

definition post_toy_ask ::
  "externals \<Rightarrow> db \<Rightarrow> string option \<Rightarrow> uuid \<Rightarrow> string \<Rightarrow> datetime \<Rightarrow> uuid
     \<Rightarrow> (error + ToyAskResponse) \<times> db" where
  "post_toy_ask ext d api_key toy_uuid question now new_id =
     depends_api_key ext d api_key (\<lambda>key. toy_ask d question toy_uuid now new_id)"

definition post_toy_heartbeat ::
  "externals \<Rightarrow> db \<Rightarrow> string option \<Rightarrow> uuid \<Rightarrow> datetime \<Rightarrow> (error + string) \<times> db" where
  "post_toy_heartbeat ext d api_key toy_uuid now =
     depends_api_key ext d api_key (\<lambda>key. toy_heartbeat d toy_uuid now)"

definition post_toy_pair ::
  "db \<Rightarrow> access_token \<Rightarrow> uuid \<Rightarrow> uuid \<Rightarrow> datetime \<Rightarrow> (error + pair_status) \<times> db" where
  "post_toy_pair d credentials toy_uuid child_id now =
     depends_current_parent d now credentials (\<lambda>parent. pair_toy d parent toy_uuid child_id now)"

definition post_toy_set_active_child ::
  "db \<Rightarrow> access_token \<Rightarrow> uuid \<Rightarrow> uuid \<Rightarrow> datetime \<Rightarrow> (error + active_child_set) \<times> db" where
  "post_toy_set_active_child d credentials toy_uuid child_id now =
     depends_current_parent d now credentials
       (\<lambda>parent. set_active_child d parent toy_uuid child_id)"

definition post_parent_children ::
  "db \<Rightarrow> access_token \<Rightarrow> string \<Rightarrow> int \<Rightarrow> datetime \<Rightarrow> uuid \<Rightarrow> uuid \<Rightarrow> (error + Child) \<times> db" where
  "post_parent_children d credentials child_name age now new_child_id new_analytics_id =
     depends_current_parent d now credentials
       (\<lambda>parent. create_child d parent child_name age new_child_id new_analytics_id)"

definition get_parent_toy_status ::
  "db \<Rightarrow> access_token \<Rightarrow> uuid \<Rightarrow> datetime \<Rightarrow> error + toy_status" where
  "get_parent_toy_status d credentials toy_uuid now =
     (case get_current_parent d now credentials of
        Inl e \<Rightarrow> Inl e
      | Inr parent \<Rightarrow> get_toy_status d parent toy_uuid now)"

definition post_auth_logout ::
  "db \<Rightarrow> access_token \<Rightarrow> datetime \<Rightarrow> (error + string) \<times> db" where
  "post_auth_logout d credentials now =
     depends_current_parent d now credentials (\<lambda>parent. logout d parent)"

definition post_auth_apikey_create ::
  "externals \<Rightarrow> db \<Rightarrow> access_token \<Rightarrow> string \<Rightarrow> datetime \<Rightarrow> string
     \<Rightarrow> (error + string \<times> string) \<times> db" where
  "post_auth_apikey_create ext d credentials owner now raw_key =
     depends_current_parent d now credentials
       (\<lambda>parent. create_api_key ext d parent owner raw_key)"

text \<open>
  The requests that write to the store, each with the values the environment supplies
  while it is served (fresh identifiers and random tokens). The \<^verbatim>\<open>GET\<close> routes write
  nothing.
\<close>

datatype request =
    Signup string string string uuid
  | Login string string "string option" uuid string
  | Refresh string uuid string
  | Logout access_token
  | ApiKeyCreate access_token string string
  | CreateChild access_token string int uuid uuid
  | PairToy access_token uuid uuid
  | SetActiveChild access_token uuid uuid
  | ToyAsk "string option" uuid string uuid
  | ToyHeartbeat "string option" uuid

fun handle :: "externals \<Rightarrow> datetime \<Rightarrow> request \<Rightarrow> db \<Rightarrow> db" where
  "handle ext now (Signup name email password new_id) d =
     snd (signup ext d name email password new_id)"
| "handle ext now (Login email password user_agent new_id refresh_raw) d =
     snd (login ext d email password user_agent now new_id refresh_raw)"
| "handle ext now (Refresh refresh_token new_id refresh_raw) d =
     snd (refresh ext d refresh_token now new_id refresh_raw)"
| "handle ext now (Logout credentials) d = snd (post_auth_logout d credentials now)"
| "handle ext now (ApiKeyCreate credentials owner raw_key) d =
     snd (post_auth_apikey_create ext d credentials owner now raw_key)"
| "handle ext now (CreateChild credentials child_name age new_child_id new_analytics_id) d =
     snd (post_parent_children d credentials child_name age now new_child_id new_analytics_id)"
| "handle ext now (PairToy credentials toy_uuid child_id) d =
     snd (post_toy_pair d credentials toy_uuid child_id now)"
| "handle ext now (SetActiveChild credentials toy_uuid child_id) d =
     snd (post_toy_set_active_child d credentials toy_uuid child_id now)"
| "handle ext now (ToyAsk api_key toy_uuid question new_id) d =
     snd (post_toy_ask ext d api_key toy_uuid question now new_id)"
| "handle ext now (ToyHeartbeat api_key toy_uuid) d =
     snd (post_toy_heartbeat ext d api_key toy_uuid now)"

text \<open>A history is the list of the requests served, each with the time of its service.\<close>

fun run :: "externals \<Rightarrow> (datetime \<times> request) list \<Rightarrow> db \<Rightarrow> db" where
  "run ext [] d = d"
| "run ext ((now, req) # rest) d = run ext rest (handle ext now req d)"

section \<open>An example store\<close>

text \<open>
  One parent with two children, the first paired with the only toy, one refresh token and
  one API key. The stand-in for the keyed hash is list reversal.
\<close>

definition example_ext :: externals where
  "example_ext =
     \<lparr>hmac_sha256 = rev, pwd_ctx_hash = rev, pwd_ctx_verify = (\<lambda>raw hashed. hashed = rev raw)\<rparr>"

definition example_parent :: Parent where
  "example_parent =
     \<lparr>p_id = 1, p_name = ''Ann'', p_email = ''ann@example.org'',
      p_password_hash = rev ''correct horse'', p_role = ''parent'', p_token_version = 1,
      p_is_active = True\<rparr>"

definition example_toy :: Toy where
  "example_toy =
     \<lparr>t_id = 100, t_toy_uuid = 500, t_is_active = True, t_last_seen = Some 1000000,
      t_active_child_id = None\<rparr>"

definition example_db :: db where
  "example_db =
     \<lparr>parents = [example_parent],
      toys = [example_toy],
      children =
        [\<lparr>c_id = 10, c_parent_id = 1, c_toy_id = Some 100, c_child_name = ''Bo'', c_age = 6\<rparr>,
         \<lparr>c_id = 11, c_parent_id = 1, c_toy_id = None, c_child_name = ''Cy'', c_age = 4\<rparr>],
      child_analytics =
        [\<lparr>a_id = 20, a_child_id = 10, a_total_questions = 7, a_weekly_questions = 2,
          a_last_active_date = None\<rparr>,
         \<lparr>a_id = 21, a_child_id = 11, a_total_questions = 0, a_weekly_questions = 0,
          a_last_active_date = None\<rparr>],
      conversations = [],
      messages = [],
      refresh_tokens =
        [\<lparr>rt_id = 30, rt_parent_id = 1, rt_token_hash = rev ''r1'', rt_user_agent = None,
          rt_expires_at = 2592000000000\<rparr>],
      api_keys = [\<lparr>k_key = rev ''k1'', k_owner = ''factory'', k_revoked = False\<rparr>]\<rparr>"

text \<open>The same store after the API key has been revoked.\<close>

definition example_db_revoked :: db where
  "example_db_revoked =
     example_db\<lparr>api_keys := [\<lparr>k_key = rev ''k1'', k_owner = ''factory'', k_revoked = True\<rparr>]\<rparr>"


section \<open>State predicates\<close>

text \<open>
  \<open>toy_inactive u d\<close>: no toy registered under \<^verbatim>\<open>toy_uuid\<close> \<open>u\<close> has its \<^verbatim>\<open>is_active\<close> flag
  set, as after registration with the column default. \<open>wakes u req\<close>: the request is a
  pairing or a heartbeat that names the toy.
\<close>

definition toy_inactive :: "uuid \<Rightarrow> db \<Rightarrow> bool" where
  "toy_inactive u d \<longleftrightarrow> list_all (\<lambda>t. t_toy_uuid t \<noteq> u \<or> \<not> t_is_active t) (toys d)"

fun wakes :: "uuid \<Rightarrow> request \<Rightarrow> bool" where
  "wakes u (PairToy credentials toy_uuid child_id) = (toy_uuid = u)"
| "wakes u (ToyHeartbeat api_key toy_uuid) = (toy_uuid = u)"
| "wakes u req = False"

text \<open>The example store with the toy as registered: never paired, never heard of.\<close>

definition example_db_new_toy :: db where
  "example_db_new_toy =
     example_db
       \<lparr>toys := [\<lparr>t_id = 100, t_toy_uuid = 500, t_is_active = False, t_last_seen = None,
                   t_active_child_id = None\<rparr>],
        children :=
          [\<lparr>c_id = 10, c_parent_id = 1, c_toy_id = None, c_child_name = ''Bo'', c_age = 6\<rparr>,
           \<lparr>c_id = 11, c_parent_id = 1, c_toy_id = None, c_child_name = ''Cy'', c_age = 4\<rparr>]\<rparr>"

text \<open>A bearer token of the example parent, and a history that leaves the toy alone.\<close>

definition example_token :: access_token where
  "example_token =
     Signed \<lparr>jwt_sub = Some 1, jwt_role = ''parent'', jwt_token_version = Some 1,
             jwt_exp = 900\<rparr>"

definition example_quiet_history :: "(datetime \<times> request) list" where
  "example_quiet_history =
     [(5, ToyAsk (Some ''k1'') 500 ''why?'' 40), (6, SetActiveChild example_token 500 10)]"



text \<open>
  \<open>active_child_paired d\<close>: every \<^verbatim>\<open>active_child_id\<close> that is set names a child whose \<^verbatim>\<open>toy_id\<close>
  is that toy. \<open>active_child_exists d\<close>: every \<^verbatim>\<open>active_child_id\<close> that is set names a child
  row.
\<close>

definition active_child_paired :: "db \<Rightarrow> bool" where
  "active_child_paired d \<longleftrightarrow>
     list_all (\<lambda>t. case t_active_child_id t of
                     None \<Rightarrow> True
                   | Some cid \<Rightarrow>
                       list_ex (\<lambda>c. c_id c = cid \<and> c_toy_id c = Some (t_id t)) (children d))
       (toys d)"

definition active_child_exists :: "db \<Rightarrow> bool" where
  "active_child_exists d \<longleftrightarrow>
     list_all (\<lambda>t. case t_active_child_id t of
                     None \<Rightarrow> True
                   | Some cid \<Rightarrow> list_ex (\<lambda>c. c_id c = cid) (children d))
       (toys d)"

text \<open>
  A store with one registered toy, one API key and nothing else, and a history on it: a
  parent signs up, logs in, creates two children, pairs the first with the toy and makes the
  second the toy's active child.
\<close>

definition initial_db :: db where
  "initial_db =
     \<lparr>parents = [],
      toys = [\<lparr>t_id = 100, t_toy_uuid = 500, t_is_active = False, t_last_seen = None,
               t_active_child_id = None\<rparr>],
      children = [], child_analytics = [], conversations = [], messages = [],
      refresh_tokens = [],
      api_keys = [\<lparr>k_key = rev ''k1'', k_owner = ''factory'', k_revoked = False\<rparr>]\<rparr>"

definition example_history_paired :: "(datetime \<times> request) list" where
  "example_history_paired =
     [(1, Signup ''Ann'' ''ann@example.org'' ''correct horse'' 1),
      (2, Login ''ann@example.org'' ''correct horse'' None 30 ''r1''),
      (2, CreateChild example_token ''Bo'' 6 10 20),
      (3, CreateChild example_token ''Cy'' 4 11 21),
      (4, PairToy example_token 500 10)]"

definition example_history :: "(datetime \<times> request) list" where
  "example_history = example_history_paired @ [(5, SetActiveChild example_token 500 11)]"

text \<open>\<open>unique_token_hash d\<close>: the \<^verbatim>\<open>unique\<close> constraint on \<^verbatim>\<open>refresh_tokens.token_hash\<close>.\<close>

definition unique_token_hash :: "db \<Rightarrow> bool" where
  "unique_token_hash d \<longleftrightarrow> distinct (map rt_token_hash (refresh_tokens d))"

text \<open>The example store after the parent has logged out.\<close>

definition example_db_logged_out :: db where
  "example_db_logged_out =
     example_db\<lparr>refresh_tokens := [],
                parents := [example_parent\<lparr>p_token_version := 2\<rparr>]\<rparr>"

text \<open>
  \<open>children_have_analytics d\<close>: the primary key of \<^verbatim>\<open>child_analytics\<close> is unique and every
  child has an analytics row.
\<close>

definition children_have_analytics :: "db \<Rightarrow> bool" where
  "children_have_analytics d \<longleftrightarrow>
     distinct (map a_id (child_analytics d)) \<and>
     list_all (\<lambda>c. list_ex (\<lambda>a. a_child_id a = c_id c) (child_analytics d)) (children d)"

section \<open>Properties\<close>

lemma find_update_row:
  assumes "find P rows = Some r" and "P r'" and "pk r' = pk r"
  shows "find P (update_row pk r' rows) = Some r'"
  using assms
proof (induction rows)
  case Nil
  then show ?case by simp
next
  case (Cons x xs)
  then show ?case by (auto simp: update_row_def)
qed

subsection \<open>Pairing\<close>

lemma pair_toy_again:
  assumes "pair_toy d parent toy_uuid child_id now = (Inr r, d')"
  shows "pair_toy d' parent toy_uuid child_id now' = (Inr already_paired, d')"
proof -
  from assms obtain child toy where
    c: "find (\<lambda>c. c_id c = child_id \<and> c_parent_id c = p_id parent) (children d) = Some child"
    and t: "find (\<lambda>t. t_toy_uuid t = toy_uuid) (toys d) = Some toy"
    by (auto simp: pair_toy_def split: option.splits)
  show ?thesis
  proof (cases "c_toy_id child = Some (t_id toy)")
    case True
    with assms c t have "d' = d" by (simp add: pair_toy_def)
    with True c t show ?thesis by (simp add: pair_toy_def)
  next
    case False
    let ?child = "child\<lparr>c_toy_id := Some (t_id toy)\<rparr>"
    let ?toy = "toy\<lparr>t_is_active := True, t_last_seen := Some now\<rparr>"
    from assms c t False have d': "d' = d\<lparr>children := update_row c_id ?child (children d),
        toys := update_row t_id ?toy (toys d)\<rparr>"
      by (simp add: pair_toy_def)
    from c have pc: "c_id child = child_id \<and> c_parent_id child = p_id parent"
      by (auto simp: find_Some_iff)
    from t have pt: "t_toy_uuid toy = toy_uuid" by (auto simp: find_Some_iff)
    have c': "find (\<lambda>c. c_id c = child_id \<and> c_parent_id c = p_id parent) (children d')
                = Some ?child"
      unfolding d' using find_update_row[OF c, of ?child c_id] pc by simp
    have t': "find (\<lambda>t. t_toy_uuid t = toy_uuid) (toys d') = Some ?toy"
      unfolding d' using find_update_row[OF t, of ?toy t_id] pt by simp
    show ?thesis using c' t' by (simp add: pair_toy_def)
  qed
qed

text \<open>
  C9 (pairing idempotence). When the parent's child and the toy exist and the child's
  \<^verbatim>\<open>toy_id\<close> is already the toy's id, \<^verbatim>\<open>pair_toy\<close> answers \<^verbatim>\<open>already_paired\<close> and returns the
  store as it was: no row is written, so the toy's \<^verbatim>\<open>is_active\<close> and \<^verbatim>\<open>last_seen\<close> keep
  their values. By \<open>pair_toy_again\<close> this is the case after every successful pairing.
\<close>

theorem pair_toy_idempotent:
  assumes "find (\<lambda>c. c_id c = child_id \<and> c_parent_id c = p_id parent) (children d) = Some child"
    and "find (\<lambda>t. t_toy_uuid t = toy_uuid) (toys d) = Some toy"
    and "c_toy_id child = Some (t_id toy)"
  shows "pair_toy d parent toy_uuid child_id now = (Inr already_paired, d)"
  using assms by (simp add: pair_toy_def)

theorem pair_toy_idempotent_witness:
  "pair_toy example_db example_parent 500 10 77 = (Inr already_paired, example_db)"
proof -
  let ?child = "\<lparr>c_id = 10, c_parent_id = 1, c_toy_id = Some 100, c_child_name = ''Bo'',
                  c_age = 6\<rparr>"
  have h1: "find (\<lambda>c. c_id c = 10 \<and> c_parent_id c = p_id example_parent) (children example_db)
              = Some ?child"
    by (simp add: example_db_def example_parent_def)
  have h2: "find (\<lambda>t. t_toy_uuid t = 500) (toys example_db) = Some example_toy"
    by (simp add: example_db_def example_toy_def)
  have h3: "c_toy_id ?child = Some (t_id example_toy)"
    by (simp add: example_toy_def)
  show ?thesis by (rule pair_toy_idempotent[OF h1 h2 h3])
qed

subsection \<open>Toy status\<close>

text \<open>
  C8 (liveness is derived). For a toy that the parent's query finds and that has a
  \<^verbatim>\<open>last_seen\<close>, \<^verbatim>\<open>get_toy_status\<close> reports \<^verbatim>\<open>is_active\<close> as \<open>now - last_seen < 2 minutes\<close>,
  computed from the time of the query and not from the stored \<^verbatim>\<open>is_active\<close> column: online
  119 seconds after \<^verbatim>\<open>last_seen\<close>, offline 121 seconds after it.
\<close>

theorem toy_status_online_iff:
  assumes "find_parent_toy d parent toy_uuid = Some toy"
    and "t_last_seen toy = Some last_seen"
  shows "get_toy_status d parent toy_uuid now =
           Inr \<lparr>ts_toy_uuid = toy_uuid, ts_is_active = (now - last_seen < 120000000),
                ts_last_seen = Some last_seen\<rparr>
         \<and> get_toy_status d parent toy_uuid (last_seen + 119000000) =
           Inr \<lparr>ts_toy_uuid = toy_uuid, ts_is_active = True, ts_last_seen = Some last_seen\<rparr>
         \<and> get_toy_status d parent toy_uuid (last_seen + 121000000) =
           Inr \<lparr>ts_toy_uuid = toy_uuid, ts_is_active = False, ts_last_seen = Some last_seen\<rparr>"
  using assms by (simp add: get_toy_status_def)

theorem toy_status_online_iff_witness:
  "get_toy_status example_db example_parent 500 120000000 =
     Inr \<lparr>ts_toy_uuid = 500, ts_is_active = True, ts_last_seen = Some 1000000\<rparr>
   \<and> get_toy_status example_db example_parent 500 122000000 =
     Inr \<lparr>ts_toy_uuid = 500, ts_is_active = False, ts_last_seen = Some 1000000\<rparr>"
proof -
  have h1: "find_parent_toy example_db example_parent 500 = Some example_toy"
    by (simp add: find_parent_toy_def example_db_def example_parent_def example_toy_def)
  have h2: "t_last_seen example_toy = Some 1000000"
    by (simp add: example_toy_def)
  show ?thesis using toy_status_online_iff[OF h1 h2] by simp
qed

subsection \<open>API keys\<close>

lemma find_distinct_key:
  assumes "distinct (map f xs)" and "x \<in> set xs"
  shows "find (\<lambda>y. f y = f x) xs = Some x"
  using assms by (induction xs) (auto simp: image_iff)

lemma verify_api_key_unique:
  assumes "distinct (map k_key (api_keys d))" and "raw \<noteq> []"
  shows "(\<exists>key. verify_api_key ext d (Some raw) = Inr key) \<longleftrightarrow>
         (\<exists>key \<in> set (api_keys d). k_key key = hash_api_key ext raw \<and> \<not> k_revoked key)"
proof
  assume "\<exists>key. verify_api_key ext d (Some raw) = Inr key"
  then show "\<exists>key \<in> set (api_keys d). k_key key = hash_api_key ext raw \<and> \<not> k_revoked key"
    using assms(2)
    by (auto simp: verify_api_key_def find_Some_iff split: option.splits if_splits)
next
  assume "\<exists>key \<in> set (api_keys d). k_key key = hash_api_key ext raw \<and> \<not> k_revoked key"
  then obtain key where k: "key \<in> set (api_keys d)" "k_key key = hash_api_key ext raw"
    "\<not> k_revoked key"
    by blast
  from find_distinct_key[OF assms(1) k(1)] k(2)
  have "find (\<lambda>k. k_key k = hash_api_key ext raw) (api_keys d) = Some key" by simp
  with k(3) assms(2) show "\<exists>key. verify_api_key ext d (Some raw) = Inr key"
    by (simp add: verify_api_key_def)
qed

text \<open>
  C4 as stated fails: a revoked key and an unknown key get the same error, the single
  403 \<^verbatim>\<open>Invalid or revoked API key\<close> of the branch \<^verbatim>\<open>if not key or key.revoked\<close>.
\<close>

theorem verify_api_key_counterexample:
  "find (\<lambda>k. k_key k = hash_api_key example_ext ''k1'') (api_keys example_db_revoked)
     = Some \<lparr>k_key = rev ''k1'', k_owner = ''factory'', k_revoked = True\<rparr>
   \<and> find (\<lambda>k. k_key k = hash_api_key example_ext ''k2'') (api_keys example_db_revoked) = None
   \<and> verify_api_key example_ext example_db_revoked (Some ''k1'')
     = verify_api_key example_ext example_db_revoked (Some ''k2'')"
  by (simp add: verify_api_key_def hash_api_key_def example_db_revoked_def example_db_def
      example_ext_def)

text \<open>
  C4, amended. \<^verbatim>\<open>verify_api_key\<close> fails with 401 \<^verbatim>\<open>API key required\<close> when the header is
  absent or empty, and with one and the same 403 \<^verbatim>\<open>Invalid or revoked API key\<close> when the
  keyed hash of the presented key is not stored and when the stored key is revoked. It
  returns a key exactly when the presented key is not empty and the stored key with its
  hash is not revoked; the \<^verbatim>\<open>key\<close> column being unique, that is exactly when a stored key
  that is not revoked has the hash.
\<close>

theorem verify_api_key_taxonomy:
  "(api_key = None \<or> api_key = Some [] \<longrightarrow>
      verify_api_key ext d api_key = Inl (HTTPException 401 ''API key required''))
   \<and> (\<forall>raw. api_key = Some raw \<and> raw \<noteq> [] \<and>
         find (\<lambda>k. k_key k = hash_api_key ext raw) (api_keys d) = None \<longrightarrow>
         verify_api_key ext d api_key = Inl (HTTPException 403 ''Invalid or revoked API key''))
   \<and> (\<forall>raw key. api_key = Some raw \<and> raw \<noteq> [] \<and>
         find (\<lambda>k. k_key k = hash_api_key ext raw) (api_keys d) = Some key \<and> k_revoked key \<longrightarrow>
         verify_api_key ext d api_key = Inl (HTTPException 403 ''Invalid or revoked API key''))
   \<and> (\<forall>key. verify_api_key ext d api_key = Inr key \<longleftrightarrow>
         (\<exists>raw. api_key = Some raw \<and> raw \<noteq> [] \<and>
            find (\<lambda>k. k_key k = hash_api_key ext raw) (api_keys d) = Some key \<and> \<not> k_revoked key))
   \<and> (\<forall>raw. distinct (map k_key (api_keys d)) \<and> raw \<noteq> [] \<longrightarrow>
         ((\<exists>key. verify_api_key ext d (Some raw) = Inr key) \<longleftrightarrow>
          (\<exists>key \<in> set (api_keys d). k_key key = hash_api_key ext raw \<and> \<not> k_revoked key)))"
proof -
  have "\<forall>raw. distinct (map k_key (api_keys d)) \<and> raw \<noteq> [] \<longrightarrow>
         ((\<exists>key. verify_api_key ext d (Some raw) = Inr key) \<longleftrightarrow>
          (\<exists>key \<in> set (api_keys d). k_key key = hash_api_key ext raw \<and> \<not> k_revoked key))"
    using verify_api_key_unique by blast
  moreover have "api_key = None \<or> api_key = Some [] \<longrightarrow>
      verify_api_key ext d api_key = Inl (HTTPException 401 ''API key required'')"
    by (auto simp: verify_api_key_def)
  moreover have "\<forall>raw. api_key = Some raw \<and> raw \<noteq> [] \<and>
         find (\<lambda>k. k_key k = hash_api_key ext raw) (api_keys d) = None \<longrightarrow>
         verify_api_key ext d api_key = Inl (HTTPException 403 ''Invalid or revoked API key'')"
    by (auto simp: verify_api_key_def)
  moreover have "\<forall>raw key. api_key = Some raw \<and> raw \<noteq> [] \<and>
         find (\<lambda>k. k_key k = hash_api_key ext raw) (api_keys d) = Some key \<and> k_revoked key \<longrightarrow>
         verify_api_key ext d api_key = Inl (HTTPException 403 ''Invalid or revoked API key'')"
    by (auto simp: verify_api_key_def)
  moreover have "\<forall>key. verify_api_key ext d api_key = Inr key \<longleftrightarrow>
         (\<exists>raw. api_key = Some raw \<and> raw \<noteq> [] \<and>
            find (\<lambda>k. k_key k = hash_api_key ext raw) (api_keys d) = Some key \<and> \<not> k_revoked key)"
    by (auto simp: verify_api_key_def split: option.splits)
  ultimately show ?thesis by blast
qed

theorem verify_api_key_taxonomy_witness:
  "verify_api_key example_ext example_db None = Inl (HTTPException 401 ''API key required'')
   \<and> verify_api_key example_ext example_db (Some ''k2'')
       = Inl (HTTPException 403 ''Invalid or revoked API key'')
   \<and> verify_api_key example_ext example_db_revoked (Some ''k1'')
       = Inl (HTTPException 403 ''Invalid or revoked API key'')
   \<and> verify_api_key example_ext example_db (Some ''k1'')
       = Inr \<lparr>k_key = rev ''k1'', k_owner = ''factory'', k_revoked = False\<rparr>"
proof -
  have f1: "find (\<lambda>k. k_key k = hash_api_key example_ext ''k2'') (api_keys example_db) = None"
    by (simp add: hash_api_key_def example_db_def example_ext_def)
  have f2: "find (\<lambda>k. k_key k = hash_api_key example_ext ''k1'') (api_keys example_db_revoked)
              = Some \<lparr>k_key = rev ''k1'', k_owner = ''factory'', k_revoked = True\<rparr>"
    by (simp add: hash_api_key_def example_db_revoked_def example_db_def example_ext_def)
  have f3: "find (\<lambda>k. k_key k = hash_api_key example_ext ''k1'') (api_keys example_db)
              = Some \<lparr>k_key = rev ''k1'', k_owner = ''factory'', k_revoked = False\<rparr>"
    by (simp add: hash_api_key_def example_db_def example_ext_def)
  show ?thesis
    using verify_api_key_taxonomy[of None example_ext example_db]
      verify_api_key_taxonomy[of "Some ''k2''" example_ext example_db]
      verify_api_key_taxonomy[of "Some ''k1''" example_ext example_db_revoked]
      verify_api_key_taxonomy[of "Some ''k1''" example_ext example_db]
      f1 f2 f3
    by simp
qed

subsection \<open>Creating a child\<close>


lemma pg_varchar_Inl: "pg_varchar n s = Inl e \<Longrightarrow> e = DataError"
  by (auto simp: pg_varchar_def Let_def split: if_splits)

lemma pg_varchar_nul: "\<not> fits_text s \<Longrightarrow> pg_varchar n s = Inl DataError"
  by (simp add: pg_varchar_def)

lemma create_child_try_Inr:
  assumes "fits_integer age" and "pg_varchar 100 name = Inr stored"
    and "new_child_id \<notin> c_id ` set (children d)"
    and "new_analytics_id \<notin> a_id ` set (child_analytics d)"
    and "new_child_id \<notin> a_child_id ` set (child_analytics d)"
  shows "create_child_try d parent name age new_child_id new_analytics_id =
     Inr (\<lparr>c_id = new_child_id, c_parent_id = p_id parent, c_toy_id = None,
            c_child_name = stored, c_age = age\<rparr>,
          d\<lparr>children := children d @
                [\<lparr>c_id = new_child_id, c_parent_id = p_id parent, c_toy_id = None,
                  c_child_name = stored, c_age = age\<rparr>],
            child_analytics := child_analytics d @
                [\<lparr>a_id = new_analytics_id, a_child_id = new_child_id, a_total_questions = 0,
                  a_weekly_questions = 0, a_last_active_date = None\<rparr>]\<rparr>)"
  using assms
  by (auto simp: create_child_try_def insert_row_def list_ex_iff child_conflict_def
      analytics_conflict_def Let_def)

lemma create_child_try_Inl:
  assumes "fits_integer age" and "pg_varchar 100 name = Inr stored"
    and "new_child_id \<in> c_id ` set (children d)
           \<or> new_analytics_id \<in> a_id ` set (child_analytics d)
           \<or> new_child_id \<in> a_child_id ` set (child_analytics d)"
  shows "create_child_try d parent name age new_child_id new_analytics_id = Inl IntegrityError"
  using assms
  by (auto simp: create_child_try_def insert_row_def list_ex_iff child_conflict_def
      analytics_conflict_def Let_def)

lemma create_child_try_DataError:
  assumes "\<not> fits_integer age \<or> pg_varchar 100 name = Inl DataError"
  shows "create_child_try d parent name age new_child_id new_analytics_id = Inl DataError"
  using assms by (auto simp: create_child_try_def)

lemma create_child_try_IntegrityError_iff:
  "create_child_try d parent name age new_child_id new_analytics_id = Inl IntegrityError \<longleftrightarrow>
     fits_integer age \<and> (\<exists>stored. pg_varchar 100 name = Inr stored)
     \<and> (new_child_id \<in> c_id ` set (children d)
         \<or> new_analytics_id \<in> a_id ` set (child_analytics d)
         \<or> new_child_id \<in> a_child_id ` set (child_analytics d))"
proof (cases "fits_integer age")
  case False
  then show ?thesis by (simp add: create_child_try_DataError)
next
  case True
  show ?thesis
  proof (cases "pg_varchar 100 name")
    case (Inl e)
    with pg_varchar_Inl[OF Inl] show ?thesis by (simp add: create_child_try_DataError)
  next
    case (Inr stored)
    show ?thesis
    proof (cases "new_child_id \<in> c_id ` set (children d)
         \<or> new_analytics_id \<in> a_id ` set (child_analytics d)
         \<or> new_child_id \<in> a_child_id ` set (child_analytics d)")
      case c: True
      from create_child_try_Inl[OF True Inr c] True Inr c show ?thesis by simp
    next
      case False
      then have n: "new_child_id \<notin> c_id ` set (children d)"
        "new_analytics_id \<notin> a_id ` set (child_analytics d)"
        "new_child_id \<notin> a_child_id ` set (child_analytics d)" by auto
      from create_child_try_Inr[OF True Inr n] False show ?thesis by simp
    qed
  qed
qed

lemma create_child_try_errors:
  "create_child_try d parent name age new_child_id new_analytics_id = Inl e \<Longrightarrow>
     e = IntegrityError \<or> e = DataError"
  by (auto simp: create_child_try_def insert_row_def Let_def
      split: if_splits sum.splits dest: pg_varchar_Inl)




text \<open>
  C6 (child and analytics are created together). A successful \<^verbatim>\<open>create_child\<close> adds
  exactly the new child row and exactly one analytics row for it, and each is then the only
  row with the child's id. Every failure returns the store as it was. An integrity
  violation on either insert is rolled back and answered with 409, and with the parent
  below the limit with 409 \<^verbatim>\<open>Child creation conflict\<close>; it occurs exactly when the values
  fit their columns and an identifier is taken. The one failure that is not a 409 is the
  \<^verbatim>\<open>DataError\<close> for a value that does not fit its column, which is no integrity violation.
\<close>

theorem create_child_atomic:
  "(case create_child d parent name age new_child_id new_analytics_id of
      (Inr child, d') \<Rightarrow>
        c_id child = new_child_id \<and> c_parent_id child = p_id parent \<and> c_toy_id child = None
        \<and> c_age child = age \<and> pg_varchar 100 name = Inr (c_child_name child)
        \<and> d' = d\<lparr>children := children d @ [child],
                 child_analytics := child_analytics d @
                   [\<lparr>a_id = new_analytics_id, a_child_id = new_child_id, a_total_questions = 0,
                     a_weekly_questions = 0, a_last_active_date = None\<rparr>]\<rparr>
        \<and> length (filter (\<lambda>c. c_id c = new_child_id) (children d')) = 1
        \<and> length (filter (\<lambda>a. a_child_id a = new_child_id) (child_analytics d')) = 1
    | (Inl e, d') \<Rightarrow> d' = d \<and> (status_code e = 409 \<or> e = DataError))
   \<and> (create_child_try d parent name age new_child_id new_analytics_id = Inl IntegrityError \<longrightarrow>
        (\<exists>e. create_child d parent name age new_child_id new_analytics_id = (Inl e, d)
            \<and> status_code e = 409)
        \<and> (length (filter (\<lambda>c. c_parent_id c = p_id parent) (children d)) < 3 \<longrightarrow>
            create_child d parent name age new_child_id new_analytics_id
              = (Inl (HTTPException 409 ''Child creation conflict''), d)))
   \<and> (create_child_try d parent name age new_child_id new_analytics_id = Inl IntegrityError \<longleftrightarrow>
        fits_integer age \<and> (\<exists>stored. pg_varchar 100 name = Inr stored)
        \<and> (new_child_id \<in> c_id ` set (children d)
            \<or> new_analytics_id \<in> a_id ` set (child_analytics d)
            \<or> new_child_id \<in> a_child_id ` set (child_analytics d)))"
proof (intro conjI impI)
  show "case create_child d parent name age new_child_id new_analytics_id of
      (Inr child, d') \<Rightarrow>
        c_id child = new_child_id \<and> c_parent_id child = p_id parent \<and> c_toy_id child = None
        \<and> c_age child = age \<and> pg_varchar 100 name = Inr (c_child_name child)
        \<and> d' = d\<lparr>children := children d @ [child],
                 child_analytics := child_analytics d @
                   [\<lparr>a_id = new_analytics_id, a_child_id = new_child_id, a_total_questions = 0,
                     a_weekly_questions = 0, a_last_active_date = None\<rparr>]\<rparr>
        \<and> length (filter (\<lambda>c. c_id c = new_child_id) (children d')) = 1
        \<and> length (filter (\<lambda>a. a_child_id a = new_child_id) (child_analytics d')) = 1
    | (Inl e, d') \<Rightarrow> d' = d \<and> (status_code e = 409 \<or> e = DataError)"
  proof (cases "3 \<le> length (filter (\<lambda>c. c_parent_id c = p_id parent) (children d))")
    case True
    then show ?thesis by (simp add: create_child_def)
  next
    case few: False
    show ?thesis
    proof (cases "create_child_try d parent name age new_child_id new_analytics_id")
      case (Inl e)
      from create_child_try_errors[OF Inl] Inl few show ?thesis
        by (auto simp: create_child_def)
    next
      case (Inr r)
      then have ok: "create_child_try d parent name age new_child_id new_analytics_id
          \<noteq> Inl IntegrityError"
        and fits: "fits_integer age"
        by (auto simp: create_child_try_def split: if_splits)
      from Inr obtain stored where stored: "pg_varchar 100 name = Inr stored"
        by (auto simp: create_child_try_def split: if_splits sum.splits)
      from ok fits stored have n: "new_child_id \<notin> c_id ` set (children d)"
        "new_analytics_id \<notin> a_id ` set (child_analytics d)"
        "new_child_id \<notin> a_child_id ` set (child_analytics d)"
        unfolding create_child_try_IntegrityError_iff by auto
      have c0: "filter (\<lambda>c. c_id c = new_child_id) (children d) = []"
        using n(1) by (auto simp: filter_empty_conv)
      have a0: "filter (\<lambda>a. a_child_id a = new_child_id) (child_analytics d) = []"
        using n(3) by (auto simp: filter_empty_conv)
      show ?thesis using few c0 a0 stored
        by (simp add: create_child_def create_child_try_Inr[OF fits stored n])
    qed
  qed
next
  assume i: "create_child_try d parent name age new_child_id new_analytics_id = Inl IntegrityError"
  show "\<exists>e. create_child d parent name age new_child_id new_analytics_id = (Inl e, d)
            \<and> status_code e = 409"
    using i by (cases "3 \<le> length (filter (\<lambda>c. c_parent_id c = p_id parent) (children d))")
      (simp_all add: create_child_def)
next
  assume "create_child_try d parent name age new_child_id new_analytics_id = Inl IntegrityError"
    and "length (filter (\<lambda>c. c_parent_id c = p_id parent) (children d)) < 3"
  then show "create_child d parent name age new_child_id new_analytics_id
              = (Inl (HTTPException 409 ''Child creation conflict''), d)"
    by (simp add: create_child_def)
next
  show "create_child_try d parent name age new_child_id new_analytics_id = Inl IntegrityError \<longleftrightarrow>
        fits_integer age \<and> (\<exists>stored. pg_varchar 100 name = Inr stored)
        \<and> (new_child_id \<in> c_id ` set (children d)
            \<or> new_analytics_id \<in> a_id ` set (child_analytics d)
            \<or> new_child_id \<in> a_child_id ` set (child_analytics d))"
    by (rule create_child_try_IntegrityError_iff)
qed

theorem create_child_atomic_witness:
  "create_child example_db example_parent ''Di'' 3 10 22
     = (Inl (HTTPException 409 ''Child creation conflict''), example_db)
   \<and> children (snd (create_child example_db example_parent ''Di'' 3 12 22))
     = children example_db @
       [\<lparr>c_id = 12, c_parent_id = 1, c_toy_id = None, c_child_name = ''Di'', c_age = 3\<rparr>]
   \<and> child_analytics (snd (create_child example_db example_parent ''Di'' 3 12 22))
     = child_analytics example_db @
       [\<lparr>a_id = 22, a_child_id = 12, a_total_questions = 0, a_weekly_questions = 0,
         a_last_active_date = None\<rparr>]"
proof -
  have two: "length (filter (\<lambda>c. c_parent_id c = p_id example_parent) (children example_db)) < 3"
    by (simp add: example_db_def example_parent_def)
  have clash: "create_child_try example_db example_parent ''Di'' 3 10 22 = Inl IntegrityError"
    by code_simp
  have ok: "fst (create_child example_db example_parent ''Di'' 3 12 22)
      = Inr \<lparr>c_id = 12, c_parent_id = 1, c_toy_id = None, c_child_name = ''Di'', c_age = 3\<rparr>"
    by code_simp
  from create_child_atomic[where d = example_db and parent = example_parent
      and name = "''Di''" and age = 3 and new_child_id = 10 and new_analytics_id = 22] two clash
  have a: "create_child example_db example_parent ''Di'' 3 10 22
     = (Inl (HTTPException 409 ''Child creation conflict''), example_db)"
    by simp
  from create_child_atomic[where d = example_db and parent = example_parent
      and name = "''Di''" and age = 3 and new_child_id = 12 and new_analytics_id = 22] ok
  have b: "snd (create_child example_db example_parent ''Di'' 3 12 22)
      = example_db\<lparr>children := children example_db @
            [\<lparr>c_id = 12, c_parent_id = 1, c_toy_id = None, c_child_name = ''Di'', c_age = 3\<rparr>],
          child_analytics := child_analytics example_db @
            [\<lparr>a_id = 22, a_child_id = 12, a_total_questions = 0, a_weekly_questions = 0,
              a_last_active_date = None\<rparr>]\<rparr>"
    by (cases "create_child example_db example_parent ''Di'' 3 12 22") auto
  from a b show ?thesis by simp
qed

subsection \<open>What each request does to the toys\<close>

lemma set_update_row: "set (update_row pk obj rows) \<subseteq> insert obj (set rows)"
  by (auto simp: update_row_def)

lemma map_pk_update_row: "map pk (update_row pk obj rows) = map pk rows"
  by (induction rows) (auto simp: update_row_def)

lemma find_Some_set: "find P xs = Some x \<Longrightarrow> x \<in> set xs \<and> P x"
  by (auto simp: find_Some_iff)

lemma store_refresh_token_frame:
  assumes "store_refresh_token ext d parent_id raw user_agent now new_id = Inr d'"
  shows "\<exists>rows. d' = d\<lparr>refresh_tokens := rows\<rparr>"
  using assms by (auto simp: store_refresh_token_def Let_def split: sum.splits)

lemma create_token_pair_frame:
  "\<exists>rows. snd (create_token_pair ext d parent user_agent now new_id raw)
           = d\<lparr>refresh_tokens := rows\<rparr>"
proof (cases "store_refresh_token ext d (p_id parent) raw user_agent now new_id")
  case (Inl e)
  then have "snd (create_token_pair ext d parent user_agent now new_id raw)
      = d\<lparr>refresh_tokens := refresh_tokens d\<rparr>"
    by (simp add: create_token_pair_def Let_def)
  then show ?thesis by blast
next
  case (Inr d')
  with store_refresh_token_frame[OF Inr] show ?thesis
    by (auto simp: create_token_pair_def Let_def)
qed

lemma revoke_all_refresh_tokens_eq:
  "fold (\<lambda>row d'. d'\<lparr>refresh_tokens := delete_row rt_id row (refresh_tokens d')\<rparr>) rows d
     = d\<lparr>refresh_tokens := filter (\<lambda>r. rt_id r \<notin> rt_id ` set rows) (refresh_tokens d)\<rparr>"
proof (induction rows arbitrary: d)
  case Nil
  then show ?case by simp
next
  case (Cons row rows)
  have "filter (\<lambda>r. rt_id r \<notin> rt_id ` set rows) (delete_row rt_id row (refresh_tokens d))
          = filter (\<lambda>r. rt_id r \<notin> rt_id ` set (row # rows)) (refresh_tokens d)"
    by (auto simp: delete_row_def intro: filter_cong)
  with Cons show ?case by simp
qed

lemma signup_toys: "toys (snd (signup ext d name email password new_id)) = toys d"
  by (auto simp: signup_def Let_def split: option.splits sum.splits)

lemma login_toys:
  "toys (snd (login ext d email password user_agent now new_id raw)) = toys d"
proof -
  obtain rows where "snd (create_token_pair ext d
      (the (find (\<lambda>p. p_email p = email) (parents d))) user_agent now new_id raw)
      = d\<lparr>refresh_tokens := rows\<rparr>"
    using create_token_pair_frame by blast
  then show ?thesis by (auto simp: login_def split: option.splits)
qed

lemma refresh_toys:
  "toys (snd (refresh ext d token now new_id raw)) = toys d"
proof -
  have "\<And>d0 parent. toys (snd (create_token_pair ext d0 parent None now new_id raw)) = toys d0"
  proof -
    fix d0 parent
    obtain rows where "snd (create_token_pair ext d0 parent None now new_id raw)
        = d0\<lparr>refresh_tokens := rows\<rparr>"
      using create_token_pair_frame by blast
    then show "toys (snd (create_token_pair ext d0 parent None now new_id raw)) = toys d0"
      by simp
  qed
  then show ?thesis by (auto simp: refresh_def Let_def split: option.splits)
qed

lemma logout_toys: "toys (snd (logout d parent)) = toys d"
  by (simp add: logout_def Let_def revoke_all_refresh_tokens_def revoke_all_refresh_tokens_eq)

lemma create_api_key_toys:
  "toys (snd (create_api_key ext d parent owner raw_key)) = toys d"
  by (auto simp: create_api_key_def Let_def split: sum.splits)

lemma create_child_toys:
  "toys (snd (create_child d parent name age new_child_id new_analytics_id)) = toys d"
  by (auto simp: create_child_def create_child_try_def Let_def
      split: sum.splits error.splits prod.splits)

lemma toy_ask_toys: "toys (snd (toy_ask d question toy_uuid now new_id)) = toys d"
  by (auto simp: toy_ask_def Let_def split: option.splits sum.splits prod.splits)

lemma depends_current_parent_cases:
  "snd (depends_current_parent d now credentials handler) = d
   \<or> (\<exists>parent. get_current_parent d now credentials = Inr parent
        \<and> depends_current_parent d now credentials handler = handler parent)"
  by (auto simp: depends_current_parent_def split: sum.splits)

lemma depends_api_key_cases:
  "snd (depends_api_key ext d api_key handler) = d
   \<or> (\<exists>key. verify_api_key ext d api_key = Inr key
        \<and> depends_api_key ext d api_key handler = handler key)"
  by (auto simp: depends_api_key_def split: sum.splits)

lemma pair_toy_toys:
  "toys (snd (pair_toy d parent toy_uuid child_id now)) = toys d
   \<or> (\<exists>toy. toy \<in> set (toys d) \<and> t_toy_uuid toy = toy_uuid
        \<and> toys (snd (pair_toy d parent toy_uuid child_id now))
            = update_row t_id (toy\<lparr>t_is_active := True, t_last_seen := Some now\<rparr>) (toys d))"
  by (auto simp: pair_toy_def split: option.splits dest: find_Some_set)

lemma toy_heartbeat_toys:
  "toys (snd (toy_heartbeat d toy_uuid now)) = toys d
   \<or> (\<exists>toy. toy \<in> set (toys d) \<and> t_toy_uuid toy = toy_uuid
        \<and> toys (snd (toy_heartbeat d toy_uuid now))
            = update_row t_id (toy\<lparr>t_last_seen := Some now, t_is_active := True\<rparr>) (toys d))"
  by (auto simp: toy_heartbeat_def split: option.splits dest: find_Some_set)

lemma set_active_child_toys:
  "toys (snd (set_active_child d parent toy_uuid child_id)) = toys d
   \<or> (\<exists>toy child. toy \<in> set (toys d) \<and> child \<in> set (children d) \<and> c_id child = child_id
        \<and> toys (snd (set_active_child d parent toy_uuid child_id))
            = update_row t_id (toy\<lparr>t_active_child_id := Some child_id\<rparr>) (toys d))"
  by (auto simp: set_active_child_def find_parent_toy_def split: option.splits
      dest!: find_Some_set)

subsection \<open>Invariants of the request handler\<close>

lemma depends_current_parent_invariant:
  assumes "P d" and "\<And>parent. P (snd (handler parent))"
  shows "P (snd (depends_current_parent d now credentials handler))"
  using assms by (auto simp: depends_current_parent_def split: sum.splits)

lemma depends_api_key_invariant:
  assumes "P d" and "\<And>key. P (snd (handler key))"
  shows "P (snd (depends_api_key ext d api_key handler))"
  using assms by (auto simp: depends_api_key_def split: sum.splits)

text \<open>
  A property of the store survives a request when it holds before and every handler,
  run on this store, returns a store that has it.
\<close>

lemma handle_invariant:
  assumes "P d"
    and "\<And>name email password new_id. req = Signup name email password new_id \<Longrightarrow>
           P (snd (signup ext d name email password new_id))"
    and "\<And>email password user_agent new_id raw.
           req = Login email password user_agent new_id raw \<Longrightarrow>
           P (snd (login ext d email password user_agent now new_id raw))"
    and "\<And>token new_id raw. req = Refresh token new_id raw \<Longrightarrow>
           P (snd (refresh ext d token now new_id raw))"
    and "\<And>credentials parent. req = Logout credentials \<Longrightarrow>
           get_current_parent d now credentials = Inr parent \<Longrightarrow> P (snd (logout d parent))"
    and "\<And>credentials owner raw_key parent. req = ApiKeyCreate credentials owner raw_key \<Longrightarrow>
           P (snd (create_api_key ext d parent owner raw_key))"
    and "\<And>credentials name age cid aid parent. req = CreateChild credentials name age cid aid \<Longrightarrow>
           P (snd (create_child d parent name age cid aid))"
    and "\<And>credentials toy_uuid child_id parent. req = PairToy credentials toy_uuid child_id \<Longrightarrow>
           P (snd (pair_toy d parent toy_uuid child_id now))"
    and "\<And>credentials toy_uuid child_id parent.
           req = SetActiveChild credentials toy_uuid child_id \<Longrightarrow>
           P (snd (set_active_child d parent toy_uuid child_id))"
    and "\<And>api_key toy_uuid question new_id. req = ToyAsk api_key toy_uuid question new_id \<Longrightarrow>
           P (snd (toy_ask d question toy_uuid now new_id))"
    and "\<And>api_key toy_uuid. req = ToyHeartbeat api_key toy_uuid \<Longrightarrow>
           P (snd (toy_heartbeat d toy_uuid now))"
  shows "P (handle ext now req d)"
proof (cases req)
  case (Logout credentials)
  show ?thesis
  proof (cases "get_current_parent d now credentials")
    case (Inl e)
    with Logout assms(1) show ?thesis
      by (simp add: post_auth_logout_def depends_current_parent_def)
  next
    case (Inr parent)
    with Logout assms(5) show ?thesis
      by (simp add: post_auth_logout_def depends_current_parent_def)
  qed
qed (use assms in \<open>simp_all add: post_auth_apikey_create_def
      post_parent_children_def post_toy_pair_def post_toy_set_active_child_def post_toy_ask_def
      post_toy_heartbeat_def depends_current_parent_invariant depends_api_key_invariant\<close>)
subsection \<open>A toy that was never paired and never sent a heartbeat\<close>

lemma toy_inactive_update_row:
  assumes "toy_inactive u d" and "t_toy_uuid toy' \<noteq> u \<or> \<not> t_is_active toy'"
    and "toys d' = update_row t_id toy' (toys d)"
  shows "toy_inactive u d'"
  using assms set_update_row[of t_id toy' "toys d"]
  by (auto simp: toy_inactive_def list_all_iff)

lemma toy_inactive_same_toys: "toy_inactive u d \<Longrightarrow> toys d' = toys d \<Longrightarrow> toy_inactive u d'"
  by (simp add: toy_inactive_def)

lemma handle_keeps_toy_inactive:
  assumes inv: "toy_inactive u d" and quiet: "\<not> wakes u req"
  shows "toy_inactive u (handle ext now req d)"
proof (induction rule: handle_invariant[where P = "toy_inactive u", OF inv, case_names
    signup login refresh logout api_key child pair set_active ask heartbeat])
  case signup
  then show ?case using inv by (simp add: toy_inactive_same_toys signup_toys)
next
  case login
  then show ?case using inv by (simp add: toy_inactive_same_toys login_toys)
next
  case refresh
  then show ?case using inv by (simp add: toy_inactive_same_toys refresh_toys)
next
  case logout
  then show ?case using inv by (simp add: toy_inactive_same_toys logout_toys)
next
  case api_key
  then show ?case using inv by (simp add: toy_inactive_same_toys create_api_key_toys)
next
  case child
  then show ?case using inv by (simp add: toy_inactive_same_toys create_child_toys)
next
  case (pair credentials toy_uuid child_id parent)
  with quiet have ne: "toy_uuid \<noteq> u" by simp
  from pair_toy_toys[of d parent toy_uuid child_id now] show ?case
  proof (elim disjE exE conjE)
    assume "toys (snd (pair_toy d parent toy_uuid child_id now)) = toys d"
    then show ?thesis by (rule toy_inactive_same_toys[OF inv])
  next
    fix toy
    assume "t_toy_uuid toy = toy_uuid"
      and eq: "toys (snd (pair_toy d parent toy_uuid child_id now))
        = update_row t_id (toy\<lparr>t_is_active := True, t_last_seen := Some now\<rparr>) (toys d)"
    with ne have "t_toy_uuid (toy\<lparr>t_is_active := True, t_last_seen := Some now\<rparr>) \<noteq> u
        \<or> \<not> t_is_active (toy\<lparr>t_is_active := True, t_last_seen := Some now\<rparr>)"
      by simp
    from toy_inactive_update_row[OF inv this eq] show ?thesis .
  qed
next
  case (set_active credentials toy_uuid child_id parent)
  from set_active_child_toys[of d parent toy_uuid child_id]
  show ?case
  proof
    assume "toys (snd (set_active_child d parent toy_uuid child_id)) = toys d"
    then show ?thesis by (rule toy_inactive_same_toys[OF inv])
  next
    assume "\<exists>toy child. toy \<in> set (toys d) \<and> child \<in> set (children d) \<and> c_id child = child_id
      \<and> toys (snd (set_active_child d parent toy_uuid child_id))
          = update_row t_id (toy\<lparr>t_active_child_id := Some child_id\<rparr>) (toys d)"
    then obtain toy where t: "toy \<in> set (toys d)"
      and eq: "toys (snd (set_active_child d parent toy_uuid child_id))
          = update_row t_id (toy\<lparr>t_active_child_id := Some child_id\<rparr>) (toys d)"
      by blast
    from inv t have "t_toy_uuid toy \<noteq> u \<or> \<not> t_is_active toy"
      by (auto simp: toy_inactive_def list_all_iff)
    then have "t_toy_uuid (toy\<lparr>t_active_child_id := Some child_id\<rparr>) \<noteq> u
        \<or> \<not> t_is_active (toy\<lparr>t_active_child_id := Some child_id\<rparr>)"
      by simp
    from toy_inactive_update_row[OF inv this eq] show ?thesis .
  qed
next
  case ask
  then show ?case using inv by (simp add: toy_inactive_same_toys toy_ask_toys)
next
  case (heartbeat api_key toy_uuid)
  with quiet have ne: "toy_uuid \<noteq> u" by simp
  from toy_heartbeat_toys[of d toy_uuid now] show ?case
  proof (elim disjE exE conjE)
    assume "toys (snd (toy_heartbeat d toy_uuid now)) = toys d"
    then show ?thesis by (rule toy_inactive_same_toys[OF inv])
  next
    fix toy
    assume "t_toy_uuid toy = toy_uuid"
      and eq: "toys (snd (toy_heartbeat d toy_uuid now))
        = update_row t_id (toy\<lparr>t_last_seen := Some now, t_is_active := True\<rparr>) (toys d)"
    with ne have "t_toy_uuid (toy\<lparr>t_last_seen := Some now, t_is_active := True\<rparr>) \<noteq> u
        \<or> \<not> t_is_active (toy\<lparr>t_last_seen := Some now, t_is_active := True\<rparr>)"
      by simp
    from toy_inactive_update_row[OF inv this eq] show ?thesis .
  qed
qed

lemma run_keeps_toy_inactive:
  assumes "toy_inactive u d" and "list_all (\<lambda>(now, req). \<not> wakes u req) history"
  shows "toy_inactive u (run ext history d)"
  using assms
proof (induction history arbitrary: d)
  case Nil
  then show ?case by simp
next
  case (Cons step history)
  obtain now req where step: "step = (now, req)" by (cases step)
  with Cons.prems have "toy_inactive u (handle ext now req d)"
    by (simp add: handle_keeps_toy_inactive)
  with Cons step show ?case by simp
qed

lemma toy_ask_inactive:
  assumes "toy_inactive u d"
  shows "toy_ask d question u now new_id = (Inl (HTTPException 401 ''Invalid or inactive toy''), d)"
proof (cases "find (\<lambda>t. t_toy_uuid t = u) (toys d)")
  case None
  then show ?thesis by (simp add: toy_ask_def)
next
  case (Some toy)
  then have "toy \<in> set (toys d)" "t_toy_uuid toy = u" by (auto dest: find_Some_set)
  with assms have "\<not> t_is_active toy" by (auto simp: toy_inactive_def list_all_iff)
  with Some show ?thesis by (simp add: toy_ask_def)
qed

text \<open>
  C10 (an inactive toy cannot ask). With a valid, non-revoked API key and an
  \<^verbatim>\<open>x-toy-uuid\<close> that finds a toy whose \<^verbatim>\<open>is_active\<close> is false, \<^verbatim>\<open>POST /toy/ask\<close> fails with
  401 and writes nothing. A toy registered with the default \<^verbatim>\<open>is_active = False\<close> stays so
  through every history of requests in which no pairing and no heartbeat names it, so
  after any such history the valid key still gets 401.
\<close>

theorem inactive_toy_cannot_ask:
  "(verify_api_key ext d api_key = Inr key
      \<and> find (\<lambda>t. t_toy_uuid t = toy_uuid) (toys d) = Some toy \<and> \<not> t_is_active toy \<longrightarrow>
      post_toy_ask ext d api_key toy_uuid question now new_id
        = (Inl (HTTPException 401 ''Invalid or inactive toy''), d))
   \<and> (toy_inactive toy_uuid d \<and> list_all (\<lambda>(now, req). \<not> wakes toy_uuid req) history
      \<and> verify_api_key ext (run ext history d) api_key = Inr key \<longrightarrow>
      toy_inactive toy_uuid (run ext history d)
      \<and> post_toy_ask ext (run ext history d) api_key toy_uuid question now new_id
        = (Inl (HTTPException 401 ''Invalid or inactive toy''), run ext history d))"
proof (intro conjI impI)
  assume "verify_api_key ext d api_key = Inr key
      \<and> find (\<lambda>t. t_toy_uuid t = toy_uuid) (toys d) = Some toy \<and> \<not> t_is_active toy"
  then show "post_toy_ask ext d api_key toy_uuid question now new_id
        = (Inl (HTTPException 401 ''Invalid or inactive toy''), d)"
    by (simp add: post_toy_ask_def depends_api_key_def toy_ask_def)
next
  assume a: "toy_inactive toy_uuid d \<and> list_all (\<lambda>(now, req). \<not> wakes toy_uuid req) history
      \<and> verify_api_key ext (run ext history d) api_key = Inr key"
  then show inv: "toy_inactive toy_uuid (run ext history d)"
    by (simp add: run_keeps_toy_inactive)
  from a toy_ask_inactive[OF inv]
  show "post_toy_ask ext (run ext history d) api_key toy_uuid question now new_id
        = (Inl (HTTPException 401 ''Invalid or inactive toy''), run ext history d)"
    by (simp add: post_toy_ask_def depends_api_key_def)
qed

theorem inactive_toy_cannot_ask_witness:
  "post_toy_ask example_ext example_db_new_toy (Some ''k1'') 500 ''why?'' 7 40
     = (Inl (HTTPException 401 ''Invalid or inactive toy''), example_db_new_toy)
   \<and> run example_ext example_quiet_history example_db_new_toy = example_db_new_toy
   \<and> post_toy_ask example_ext (run example_ext example_quiet_history example_db_new_toy)
        (Some ''k1'') 500 ''why?'' 7 40
     = (Inl (HTTPException 401 ''Invalid or inactive toy''),
        run example_ext example_quiet_history example_db_new_toy)"
proof -
  let ?key = "\<lparr>k_key = rev ''k1'', k_owner = ''factory'', k_revoked = False\<rparr>"
  let ?toy = "\<lparr>t_id = 100, t_toy_uuid = 500, t_is_active = False, t_last_seen = None,
               t_active_child_id = None\<rparr>"
  have key: "verify_api_key example_ext example_db_new_toy (Some ''k1'') = Inr ?key"
    by (simp add: verify_api_key_def hash_api_key_def example_ext_def example_db_new_toy_def
        example_db_def)
  have toy: "find (\<lambda>t. t_toy_uuid t = 500) (toys example_db_new_toy) = Some ?toy"
    by (simp add: example_db_new_toy_def)
  have ask: "toy_ask example_db_new_toy ''why?'' 500 5 40
      = (Inl (HTTPException 401 ''Invalid or inactive toy''), example_db_new_toy)"
    using toy by (simp add: toy_ask_def)
  have parent: "get_current_parent example_db_new_toy 6 example_token = Inr example_parent"
    by (simp add: get_current_parent_def decode_access_token_def example_token_def
        example_db_new_toy_def example_db_def example_parent_def)
  have set_active: "set_active_child example_db_new_toy example_parent 500 10
      = (Inl (HTTPException 404 ''Toy not found or unauthorized''), example_db_new_toy)"
    by (simp add: set_active_child_def find_parent_toy_def example_db_new_toy_def
        example_parent_def)
  have run: "run example_ext example_quiet_history example_db_new_toy = example_db_new_toy"
    by (simp add: example_quiet_history_def post_toy_ask_def depends_api_key_def key ask
        post_toy_set_active_child_def depends_current_parent_def parent set_active)
  have inactive: "toy_inactive 500 example_db_new_toy"
    by (simp add: toy_inactive_def example_db_new_toy_def)
  have quiet: "list_all (\<lambda>(now, req). \<not> wakes 500 req) example_quiet_history"
    by (simp add: example_quiet_history_def)
  from inactive_toy_cannot_ask[where ext = example_ext and d = example_db_new_toy
      and api_key = "Some ''k1''" and key = ?key and toy_uuid = 500 and toy = ?toy
      and question = "''why?''" and now = 7 and new_id = 40 and history = example_quiet_history]
    key toy inactive quiet run
  show ?thesis by simp
qed

subsection \<open>Asking through a toy\<close>

lemma latest_conversation_None: "latest_conversation xs = None \<longleftrightarrow> xs = []"
  by (cases xs) (auto split: option.splits)












subsection \<open>The active child of a toy\<close>

lemma signup_children: "children (snd (signup ext d name email password new_id)) = children d"
  by (auto simp: signup_def Let_def split: option.splits sum.splits)

lemma login_children:
  "children (snd (login ext d email password user_agent now new_id raw)) = children d"
proof -
  obtain rows where "snd (create_token_pair ext d
      (the (find (\<lambda>p. p_email p = email) (parents d))) user_agent now new_id raw)
      = d\<lparr>refresh_tokens := rows\<rparr>"
    using create_token_pair_frame by blast
  then show ?thesis by (auto simp: login_def split: option.splits)
qed

lemma refresh_children:
  "children (snd (refresh ext d token now new_id raw)) = children d"
proof -
  have "children (snd (create_token_pair ext d0 parent None now new_id raw)) = children d0"
    for d0 parent
  proof -
    obtain rows where "snd (create_token_pair ext d0 parent None now new_id raw)
        = d0\<lparr>refresh_tokens := rows\<rparr>"
      using create_token_pair_frame by blast
    then show ?thesis by simp
  qed
  then show ?thesis by (auto simp: refresh_def Let_def split: option.splits)
qed

lemma logout_children: "children (snd (logout d parent)) = children d"
  by (simp add: logout_def Let_def revoke_all_refresh_tokens_def revoke_all_refresh_tokens_eq)

lemma create_api_key_children:
  "children (snd (create_api_key ext d parent owner raw_key)) = children d"
  by (auto simp: create_api_key_def Let_def split: sum.splits)

lemma create_child_children:
  "children (snd (create_child d parent name age cid aid)) = children d
   \<or> (\<exists>child. children (snd (create_child d parent name age cid aid)) = children d @ [child])"
  by (auto simp: create_child_def create_child_try_def insert_row_def Let_def
      split: sum.splits error.splits prod.splits if_splits)

lemma toy_ask_children: "children (snd (toy_ask d question toy_uuid now new_id)) = children d"
  by (auto simp: toy_ask_def Let_def split: option.splits sum.splits prod.splits)

lemma toy_heartbeat_children: "children (snd (toy_heartbeat d toy_uuid now)) = children d"
  by (auto simp: toy_heartbeat_def split: option.splits)

lemma set_active_child_children:
  "children (snd (set_active_child d parent toy_uuid child_id)) = children d"
  by (auto simp: set_active_child_def split: option.splits)

lemma pair_toy_children:
  "map c_id (children (snd (pair_toy d parent toy_uuid child_id now))) = map c_id (children d)"
  by (auto simp: pair_toy_def map_pk_update_row split: option.splits)

lemma active_child_exists_iff:
  "active_child_exists d \<longleftrightarrow>
     (\<forall>t \<in> set (toys d). \<forall>cid. t_active_child_id t = Some cid \<longrightarrow>
        cid \<in> set (map c_id (children d)))"
  by (auto simp: active_child_exists_def list_all_iff list_ex_iff split: option.splits)

lemma active_child_exists_step:
  assumes inv: "active_child_exists d"
    and kids: "set (map c_id (children d)) \<subseteq> set (map c_id (children d'))"
    and toys: "toys d' = toys d
       \<or> (\<exists>toy toy'. toy \<in> set (toys d) \<and> toys d' = update_row t_id toy' (toys d)
            \<and> (t_active_child_id toy' = t_active_child_id toy
                \<or> (\<exists>child \<in> set (children d). t_active_child_id toy' = Some (c_id child))))"
  shows "active_child_exists d'"
  unfolding active_child_exists_iff
proof (intro ballI allI impI)
  fix t cid
  assume t: "t \<in> set (toys d')" and a: "t_active_child_id t = Some cid"
  from inv have old: "\<And>t. t \<in> set (toys d) \<Longrightarrow> t_active_child_id t = Some cid \<Longrightarrow>
      cid \<in> set (map c_id (children d))"
    unfolding active_child_exists_iff by blast
  from toys have "cid \<in> set (map c_id (children d))"
  proof (elim disjE exE conjE bexE)
    assume "toys d' = toys d"
    with t a old show ?thesis by simp
  next
    fix toy toy'
    assume toy: "toy \<in> set (toys d)" and eq: "toys d' = update_row t_id toy' (toys d)"
      and same: "t_active_child_id toy' = t_active_child_id toy"
    from t eq set_update_row[of t_id toy' "toys d"] have "t = toy' \<or> t \<in> set (toys d)" by auto
    with a same toy old show ?thesis by auto
  next
    fix toy toy' child
    assume eq: "toys d' = update_row t_id toy' (toys d)"
      and child: "child \<in> set (children d)" "t_active_child_id toy' = Some (c_id child)"
    from t eq set_update_row[of t_id toy' "toys d"] have "t = toy' \<or> t \<in> set (toys d)" by auto
    with a child old show ?thesis by auto
  qed
  with kids show "cid \<in> set (map c_id (children d'))" by blast
qed

lemma handle_keeps_active_child_exists:
  assumes inv: "active_child_exists d"
  shows "active_child_exists (handle ext now req d)"
proof (induction rule: handle_invariant[where P = active_child_exists, OF inv, case_names
    signup login refresh logout api_key child pair set_active ask heartbeat])
  case signup
  show ?case by (rule active_child_exists_step[OF inv]) (simp_all add: signup_children signup_toys)
next
  case login
  show ?case by (rule active_child_exists_step[OF inv]) (simp_all add: login_children login_toys)
next
  case refresh
  show ?case
    by (rule active_child_exists_step[OF inv]) (simp_all add: refresh_children refresh_toys)
next
  case logout
  show ?case by (rule active_child_exists_step[OF inv]) (simp_all add: logout_children logout_toys)
next
  case api_key
  show ?case
    by (rule active_child_exists_step[OF inv])
       (simp_all add: create_api_key_children create_api_key_toys)
next
  case (child credentials name age cid aid parent)
  show ?case
  proof (rule active_child_exists_step[OF inv])
    show "set (map c_id (children d))
        \<subseteq> set (map c_id (children (snd (create_child d parent name age cid aid))))"
      using create_child_children[of d parent name age cid aid] by auto
  qed (simp add: create_child_toys)
next
  case (pair credentials toy_uuid child_id parent)
  show ?case
  proof (rule active_child_exists_step[OF inv])
    show "set (map c_id (children d))
        \<subseteq> set (map c_id (children (snd (pair_toy d parent toy_uuid child_id now))))"
      by (simp only: pair_toy_children)
    from pair_toy_toys[of d parent toy_uuid child_id now]
    show "toys (snd (pair_toy d parent toy_uuid child_id now)) = toys d
       \<or> (\<exists>toy toy'. toy \<in> set (toys d)
            \<and> toys (snd (pair_toy d parent toy_uuid child_id now)) = update_row t_id toy' (toys d)
            \<and> (t_active_child_id toy' = t_active_child_id toy
                \<or> (\<exists>child \<in> set (children d). t_active_child_id toy' = Some (c_id child))))"
    proof (elim disjE exE conjE)
      fix toy
      assume "toy \<in> set (toys d)"
        and "toys (snd (pair_toy d parent toy_uuid child_id now))
            = update_row t_id (toy\<lparr>t_is_active := True, t_last_seen := Some now\<rparr>) (toys d)"
      moreover have "t_active_child_id (toy\<lparr>t_is_active := True, t_last_seen := Some now\<rparr>)
          = t_active_child_id toy" by simp
      ultimately show ?thesis by blast
    qed simp
  qed
next
  case (set_active credentials toy_uuid child_id parent)
  show ?case
  proof (rule active_child_exists_step[OF inv])
    show "set (map c_id (children d))
        \<subseteq> set (map c_id (children (snd (set_active_child d parent toy_uuid child_id))))"
      by (simp add: set_active_child_children)
    from set_active_child_toys[of d parent toy_uuid child_id]
    show "toys (snd (set_active_child d parent toy_uuid child_id)) = toys d
       \<or> (\<exists>toy toy'. toy \<in> set (toys d)
            \<and> toys (snd (set_active_child d parent toy_uuid child_id))
                = update_row t_id toy' (toys d)
            \<and> (t_active_child_id toy' = t_active_child_id toy
                \<or> (\<exists>child \<in> set (children d). t_active_child_id toy' = Some (c_id child))))"
    proof (elim disjE exE conjE)
      fix toy child
      assume "toy \<in> set (toys d)" and "child \<in> set (children d)" and "c_id child = child_id"
        and "toys (snd (set_active_child d parent toy_uuid child_id))
            = update_row t_id (toy\<lparr>t_active_child_id := Some child_id\<rparr>) (toys d)"
      moreover from \<open>c_id child = child_id\<close>
      have "t_active_child_id (toy\<lparr>t_active_child_id := Some child_id\<rparr>) = Some (c_id child)"
        by simp
      ultimately show ?thesis by blast
    qed simp
  qed
next
  case ask
  show ?case
    by (rule active_child_exists_step[OF inv]) (simp_all add: toy_ask_children toy_ask_toys)
next
  case (heartbeat api_key toy_uuid)
  show ?case
  proof (rule active_child_exists_step[OF inv])
    show "set (map c_id (children d))
        \<subseteq> set (map c_id (children (snd (toy_heartbeat d toy_uuid now))))"
      by (simp add: toy_heartbeat_children)
    from toy_heartbeat_toys[of d toy_uuid now]
    show "toys (snd (toy_heartbeat d toy_uuid now)) = toys d
       \<or> (\<exists>toy toy'. toy \<in> set (toys d)
            \<and> toys (snd (toy_heartbeat d toy_uuid now)) = update_row t_id toy' (toys d)
            \<and> (t_active_child_id toy' = t_active_child_id toy
                \<or> (\<exists>child \<in> set (children d). t_active_child_id toy' = Some (c_id child))))"
    proof (elim disjE exE conjE)
      fix toy
      assume "toy \<in> set (toys d)"
        and "toys (snd (toy_heartbeat d toy_uuid now))
            = update_row t_id (toy\<lparr>t_last_seen := Some now, t_is_active := True\<rparr>) (toys d)"
      moreover have "t_active_child_id (toy\<lparr>t_last_seen := Some now, t_is_active := True\<rparr>)
          = t_active_child_id toy" by simp
      ultimately show ?thesis by blast
    qed simp
  qed
qed

lemma run_keeps_active_child_exists:
  "active_child_exists d \<Longrightarrow> active_child_exists (run ext history d)"
proof (induction history arbitrary: d)
  case Nil
  then show ?case by simp
next
  case (Cons step history)
  obtain now req where "step = (now, req)" by (cases step)
  with Cons show ?case by (simp add: handle_keeps_active_child_exists)
qed

text \<open>
  C1 as stated fails. From a store with a registered toy and no parent, a parent signs
  up, logs in, creates two children and pairs the first with the toy: every
  \<^verbatim>\<open>active_child_id\<close> that is set names a child paired with its toy. The parent then makes
  the second child, which is paired with no toy, the active child of the toy: the request
  succeeds, since \<^verbatim>\<open>set_active_child\<close> asks that the toy be paired with some child of the
  parent, not with the child it assigns.
\<close>

theorem set_active_child_counterexample:
  "active_child_paired (run example_ext example_history_paired initial_db)
   \<and> fst (post_toy_set_active_child (run example_ext example_history_paired initial_db)
           example_token 500 11 5)
     = Inr \<lparr>acs_status = ''active_child_set'', acs_toy_uuid = 500, acs_child_id = 11\<rparr>
   \<and> toys (run example_ext example_history initial_db)
     = [\<lparr>t_id = 100, t_toy_uuid = 500, t_is_active = True, t_last_seen = Some 4,
         t_active_child_id = Some 11\<rparr>]
   \<and> find (\<lambda>c. c_id c = 11) (children (run example_ext example_history initial_db))
     = Some \<lparr>c_id = 11, c_parent_id = 1, c_toy_id = None, c_child_name = ''Cy'', c_age = 4\<rparr>
   \<and> \<not> active_child_paired (run example_ext example_history initial_db)"
  by code_simp

text \<open>
  C1, amended. A successful \<^verbatim>\<open>set_active_child\<close> writes \<^verbatim>\<open>active_child_id\<close> of the toy named
  by \<^verbatim>\<open>toy_uuid\<close> and nothing else; the child it assigns belongs to the requesting parent,
  and the toy is paired with a child of that parent, which need not be the child
  assigned. In every state reached from a store in which each \<^verbatim>\<open>active_child_id\<close> that is
  set names a child row, each \<^verbatim>\<open>active_child_id\<close> that is set names a child row.
\<close>

theorem set_active_child_assigns:
  "(set_active_child d parent toy_uuid child_id = (Inr r, d') \<longrightarrow>
      (\<exists>child toy sibling.
          child \<in> set (children d) \<and> c_id child = child_id \<and> c_parent_id child = p_id parent
        \<and> toy \<in> set (toys d) \<and> t_toy_uuid toy = toy_uuid
        \<and> sibling \<in> set (children d) \<and> c_parent_id sibling = p_id parent
        \<and> c_toy_id sibling = Some (t_id toy)
        \<and> d' = d\<lparr>toys := update_row t_id (toy\<lparr>t_active_child_id := Some child_id\<rparr>) (toys d)\<rparr>))
   \<and> (active_child_exists d \<longrightarrow> active_child_exists (run ext history d))"
proof (intro conjI impI)
  assume a: "set_active_child d parent toy_uuid child_id = (Inr r, d')"
  then obtain child toy where
    c: "find (\<lambda>c. c_id c = child_id \<and> c_parent_id c = p_id parent) (children d) = Some child"
    and t: "find_parent_toy d parent toy_uuid = Some toy"
    by (auto simp: set_active_child_def split: option.splits)
  from c have c': "child \<in> set (children d)" "c_id child = child_id"
    "c_parent_id child = p_id parent"
    by (auto dest: find_Some_set)
  from t have t': "toy \<in> set (toys d)" "t_toy_uuid toy = toy_uuid"
    and ex: "list_ex (\<lambda>c. c_toy_id c = Some (t_id toy) \<and> c_parent_id c = p_id parent) (children d)"
    by (auto simp: find_parent_toy_def dest: find_Some_set)
  from ex obtain sibling where s: "sibling \<in> set (children d)"
    "c_parent_id sibling = p_id parent" "c_toy_id sibling = Some (t_id toy)"
    by (auto simp: list_ex_iff)
  from a c t c'(2)
  have "d' = d\<lparr>toys := update_row t_id (toy\<lparr>t_active_child_id := Some child_id\<rparr>) (toys d)\<rparr>"
    by (simp add: set_active_child_def)
  with c' t' s
  show "\<exists>child toy sibling.
          child \<in> set (children d) \<and> c_id child = child_id \<and> c_parent_id child = p_id parent
        \<and> toy \<in> set (toys d) \<and> t_toy_uuid toy = toy_uuid
        \<and> sibling \<in> set (children d) \<and> c_parent_id sibling = p_id parent
        \<and> c_toy_id sibling = Some (t_id toy)
        \<and> d' = d\<lparr>toys := update_row t_id (toy\<lparr>t_active_child_id := Some child_id\<rparr>) (toys d)\<rparr>"
    by blast
next
  assume "active_child_exists d"
  then show "active_child_exists (run ext history d)"
    by (rule run_keeps_active_child_exists)
qed

theorem set_active_child_assigns_witness:
  "(\<exists>child toy sibling.
      child \<in> set (children example_db) \<and> c_id child = 11 \<and> c_parent_id child = 1
      \<and> toy \<in> set (toys example_db) \<and> t_toy_uuid toy = 500
      \<and> sibling \<in> set (children example_db) \<and> c_parent_id sibling = 1
      \<and> c_toy_id sibling = Some (t_id toy)
      \<and> snd (set_active_child example_db example_parent 500 11)
          = example_db\<lparr>toys := update_row t_id (toy\<lparr>t_active_child_id := Some 11\<rparr>)
                                    (toys example_db)\<rparr>)
   \<and> active_child_exists (run example_ext example_history initial_db)"
proof -
  have s: "set_active_child example_db example_parent 500 11
      = (Inr \<lparr>acs_status = ''active_child_set'', acs_toy_uuid = 500, acs_child_id = 11\<rparr>,
         snd (set_active_child example_db example_parent 500 11))"
    by (simp add: set_active_child_def find_parent_toy_def example_db_def example_parent_def
        example_toy_def)
  have i: "active_child_exists initial_db"
    by (simp add: active_child_exists_def initial_db_def)
  have p: "p_id example_parent = 1" by (simp add: example_parent_def)
  from set_active_child_assigns[where d = example_db and parent = example_parent
      and toy_uuid = 500 and child_id = 11
      and r = "\<lparr>acs_status = ''active_child_set'', acs_toy_uuid = 500, acs_child_id = 11\<rparr>"
      and d' = "snd (set_active_child example_db example_parent 500 11)"
      and ext = example_ext and history = example_history] s p
  have a: "\<exists>child toy sibling.
      child \<in> set (children example_db) \<and> c_id child = 11 \<and> c_parent_id child = 1
      \<and> toy \<in> set (toys example_db) \<and> t_toy_uuid toy = 500
      \<and> sibling \<in> set (children example_db) \<and> c_parent_id sibling = 1
      \<and> c_toy_id sibling = Some (t_id toy)
      \<and> snd (set_active_child example_db example_parent 500 11)
          = example_db\<lparr>toys := update_row t_id (toy\<lparr>t_active_child_id := Some 11\<rparr>)
                                    (toys example_db)\<rparr>"
    by simp
  from set_active_child_assigns[where d = initial_db and ext = example_ext
      and history = example_history] i
  have b: "active_child_exists (run example_ext example_history initial_db)"
    by simp
  from a b show ?thesis by simp
qed

subsection \<open>Logout\<close>

lemma get_current_parent_Inr:
  assumes "get_current_parent d now credentials = Inr parent"
  shows "find (\<lambda>p. p_id p = p_id parent) (parents d) = Some parent \<and> p_is_active parent"
proof -
  from assms obtain pid where f: "find (\<lambda>p. p_id p = pid) (parents d) = Some parent"
    and act: "p_is_active parent"
    by (auto simp: get_current_parent_def split: sum.splits option.splits if_splits)
  from f have "p_id parent = pid" by (auto dest: find_Some_set)
  with f act show ?thesis by simp
qed

lemma decode_access_token_401:
  "decode_access_token now (Signed claims) = Inl e \<Longrightarrow> status_code e = 401"
  by (auto simp: decode_access_token_def split: if_splits)

lemma get_current_parent_stale:
  assumes f: "find (\<lambda>p. p_id p = pid) (parents d) = Some parent"
    and sub: "jwt_sub (claims :: payload) = Some pid"
    and stale: "jwt_token_version claims \<noteq> Some (p_token_version parent)"
  shows "\<exists>e. get_current_parent d now (Signed claims) = Inl e \<and> status_code e = 401"
proof (cases "decode_access_token now (Signed claims)")
  case (Inl e)
  with decode_access_token_401[OF Inl] show ?thesis by (simp add: get_current_parent_def)
next
  case (Inr claims')
  then have "claims' = claims"
    by (auto simp: decode_access_token_def split: if_splits)
  with Inr f sub stale show ?thesis
    by (auto simp: get_current_parent_def)
qed

lemma logout_result:
  "logout d parent =
     (if fits_integer (p_token_version parent + 1) then
        (Inr ''logged_out'',
         d\<lparr>refresh_tokens :=
              filter (\<lambda>r. rt_id r \<notin> rt_id ` set (filter (\<lambda>r. rt_parent_id r = p_id parent)
                                                      (refresh_tokens d)))
                (refresh_tokens d),
           parents := update_row p_id (parent\<lparr>p_token_version := p_token_version parent + 1\<rparr>)
                        (parents d)\<rparr>)
      else (Inl DataError, d))"
  by (simp add: logout_def Let_def revoke_all_refresh_tokens_def revoke_all_refresh_tokens_eq)

lemma distinct_map_eq:
  assumes "distinct (map f xs)" and "x \<in> set xs" and "y \<in> set xs" and "f x = f y"
  shows "x = y"
  using assms by (meson distinct_map inj_onD)

lemma find_None_filter_out:
  assumes uniq: "distinct (map f xs)" and found: "find (\<lambda>r. f r = h) xs = Some x"
    and gone: "\<not> P x"
  shows "find (\<lambda>r. f r = h) (filter P xs) = None"
proof -
  from found have x: "x \<in> set xs" "f x = h" by (auto dest: find_Some_set)
  have "\<And>r. r \<in> set (filter P xs) \<Longrightarrow> f r \<noteq> h"
  proof
    fix r assume r: "r \<in> set (filter P xs)" and "f r = h"
    with x uniq have "r = x" by (auto intro: distinct_map_eq[of f xs])
    with r gone show False by simp
  qed
  then show ?thesis by (auto simp: find_None_iff)
qed

text \<open>
  C3 (logout revokes everything). A successful \<^verbatim>\<open>POST /auth/logout\<close> stores the parent with
  \<^verbatim>\<open>token_version\<close> one higher and leaves no refresh token of that parent. Afterwards every
  access token of that parent that carries another version than the new one, in particular
  every token created from the parent as it was before the logout, fails
  \<^verbatim>\<open>get_current_parent\<close> with 401 at any time, and presenting a refresh token whose row belonged
  to the parent fails with 401 (\<^verbatim>\<open>token_hash\<close> being unique).
\<close>

theorem logout_revokes_all:
  assumes out: "post_auth_logout d credentials now = (Inr r, d')"
  shows "\<exists>parent. get_current_parent d now credentials = Inr parent
     \<and> find (\<lambda>p. p_id p = p_id parent) (parents d')
         = Some (parent\<lparr>p_token_version := p_token_version parent + 1\<rparr>)
     \<and> list_all (\<lambda>r. rt_parent_id r \<noteq> p_id parent) (refresh_tokens d')
     \<and> (\<forall>(claims :: payload) now'. jwt_sub claims = Some (p_id parent)
           \<and> jwt_token_version claims \<noteq> Some (p_token_version parent + 1) \<longrightarrow>
           (\<exists>e. get_current_parent d' now' (Signed claims) = Inl e \<and> status_code e = 401))
     \<and> (\<forall>issued now'. \<exists>e. get_current_parent d' now' (create_access_token parent issued) = Inl e
           \<and> status_code e = 401)
     \<and> (\<forall>ext token stored now' new_id raw.
           unique_token_hash d
           \<and> find (\<lambda>r. rt_token_hash r = hash_refresh_token ext token) (refresh_tokens d)
               = Some stored
           \<and> rt_parent_id stored = p_id parent \<longrightarrow>
           refresh ext d' token now' new_id raw
             = (Inl (HTTPException 401 ''Invalid refresh token''), d'))"
proof -
  from out obtain parent where g: "get_current_parent d now credentials = Inr parent"
    and l: "logout d parent = (Inr r, d')"
    by (auto simp: post_auth_logout_def depends_current_parent_def split: sum.splits)
  let ?parent = "parent\<lparr>p_token_version := p_token_version parent + 1\<rparr>"
  let ?mine = "filter (\<lambda>r. rt_parent_id r = p_id parent) (refresh_tokens d)"
  from l have d': "d' = d\<lparr>refresh_tokens :=
        filter (\<lambda>r. rt_id r \<notin> rt_id ` set ?mine) (refresh_tokens d),
      parents := update_row p_id ?parent (parents d)\<rparr>"
    by (simp add: logout_result split: if_splits)
  from get_current_parent_Inr[OF g]
  have f: "find (\<lambda>p. p_id p = p_id parent) (parents d) = Some parent" by simp
  have 1: "find (\<lambda>p. p_id p = p_id parent) (parents d') = Some ?parent"
    unfolding d' using find_update_row[OF f, of ?parent p_id] by simp
  have 2: "list_all (\<lambda>r. rt_parent_id r \<noteq> p_id parent) (refresh_tokens d')"
    unfolding d' by (auto simp: list_all_iff)
  have 3: "\<forall>(claims :: payload) now'. jwt_sub claims = Some (p_id parent)
           \<and> jwt_token_version claims \<noteq> Some (p_token_version parent + 1) \<longrightarrow>
           (\<exists>e. get_current_parent d' now' (Signed claims) = Inl e \<and> status_code e = 401)"
  proof (intro allI impI)
    fix claims :: payload and now'
    assume a: "jwt_sub claims = Some (p_id parent)
           \<and> jwt_token_version claims \<noteq> Some (p_token_version parent + 1)"
    then have "jwt_token_version claims \<noteq> Some (p_token_version ?parent)" by simp
    with get_current_parent_stale[OF 1, of claims now'] a
    show "\<exists>e. get_current_parent d' now' (Signed claims) = Inl e \<and> status_code e = 401"
      by blast
  qed
  have 4: "\<forall>issued now'. \<exists>e. get_current_parent d' now' (create_access_token parent issued) = Inl e
           \<and> status_code e = 401"
  proof (intro allI)
    fix issued now'
    from 3 show "\<exists>e. get_current_parent d' now' (create_access_token parent issued) = Inl e
           \<and> status_code e = 401"
      by (simp add: create_access_token_def Let_def)
  qed
  have 5: "\<forall>ext token stored now' new_id raw.
           unique_token_hash d
           \<and> find (\<lambda>r. rt_token_hash r = hash_refresh_token ext token) (refresh_tokens d)
               = Some stored
           \<and> rt_parent_id stored = p_id parent \<longrightarrow>
           refresh ext d' token now' new_id raw
             = (Inl (HTTPException 401 ''Invalid refresh token''), d')"
  proof (intro allI impI)
    fix ext token stored now' new_id raw
    assume a: "unique_token_hash d
           \<and> find (\<lambda>r. rt_token_hash r = hash_refresh_token ext token) (refresh_tokens d)
               = Some stored
           \<and> rt_parent_id stored = p_id parent"
    then have "stored \<in> set ?mine" by (auto dest: find_Some_set)
    then have gone: "\<not> rt_id stored \<notin> rt_id ` set ?mine" by blast
    from a have uniq: "distinct (map rt_token_hash (refresh_tokens d))"
      and found: "find (\<lambda>r. rt_token_hash r = hash_refresh_token ext token) (refresh_tokens d)
               = Some stored"
      by (simp_all add: unique_token_hash_def)
    have "find (\<lambda>r. rt_token_hash r = hash_refresh_token ext token)
            (filter (\<lambda>r. rt_id r \<notin> rt_id ` set ?mine) (refresh_tokens d)) = None"
      using uniq found gone by (rule find_None_filter_out)
    then have "find (\<lambda>r. rt_token_hash r = hash_refresh_token ext token) (refresh_tokens d')
        = None"
      unfolding d' by simp
    then show "refresh ext d' token now' new_id raw
             = (Inl (HTTPException 401 ''Invalid refresh token''), d')"
      by (simp add: refresh_def)
  qed
  from g 1 2 3 4 5 show ?thesis by blast
qed

theorem logout_revokes_all_witness:
  "post_auth_logout example_db example_token 6 = (Inr ''logged_out'', example_db_logged_out)
   \<and> get_current_parent example_db 6 example_token = Inr example_parent
   \<and> (\<exists>e. get_current_parent example_db_logged_out 7 example_token = Inl e
         \<and> status_code e = 401)
   \<and> refresh example_ext example_db_logged_out ''r1'' 7 31 ''r2''
       = (Inl (HTTPException 401 ''Invalid refresh token''), example_db_logged_out)"
proof -
  let ?claims = "\<lparr>jwt_sub = Some 1, jwt_role = ''parent'', jwt_token_version = Some 1,
                   jwt_exp = 900\<rparr>"
  let ?stored = "\<lparr>rt_id = 30, rt_parent_id = 1, rt_token_hash = rev ''r1'',
                   rt_user_agent = None, rt_expires_at = 2592000000000\<rparr>"
  have g: "get_current_parent example_db 6 example_token = Inr example_parent"
    by (simp add: get_current_parent_def decode_access_token_def example_token_def
        example_db_def example_parent_def)
  have out: "post_auth_logout example_db example_token 6
      = (Inr ''logged_out'', example_db_logged_out)"
    by code_simp
  have uniq: "unique_token_hash example_db"
    by (simp add: unique_token_hash_def example_db_def)
  have stored: "find (\<lambda>r. rt_token_hash r = hash_refresh_token example_ext ''r1'')
      (refresh_tokens example_db) = Some ?stored"
    by (simp add: hash_refresh_token_def example_ext_def example_db_def)
  have mine: "rt_parent_id ?stored = p_id example_parent" "jwt_sub ?claims = Some (p_id example_parent)"
    "jwt_token_version ?claims \<noteq> Some (p_token_version example_parent + 1)"
    by (simp_all add: example_parent_def)
  from logout_revokes_all[OF out] g
  have stale: "\<forall>(claims :: payload) now'. jwt_sub claims = Some (p_id example_parent)
           \<and> jwt_token_version claims \<noteq> Some (p_token_version example_parent + 1) \<longrightarrow>
           (\<exists>e. get_current_parent example_db_logged_out now' (Signed claims) = Inl e
              \<and> status_code e = 401)"
    and spent: "\<forall>ext token stored now' new_id raw.
           unique_token_hash example_db
           \<and> find (\<lambda>r. rt_token_hash r = hash_refresh_token ext token) (refresh_tokens example_db)
               = Some stored
           \<and> rt_parent_id stored = p_id example_parent \<longrightarrow>
           refresh ext example_db_logged_out token now' new_id raw
             = (Inl (HTTPException 401 ''Invalid refresh token''), example_db_logged_out)"
    by auto
  from stale mine have a: "\<exists>e. get_current_parent example_db_logged_out 7 example_token = Inl e
         \<and> status_code e = 401"
    unfolding example_token_def by blast
  from spent uniq stored mine(1)
  have b: "refresh example_ext example_db_logged_out ''r1'' 7 31 ''r2''
       = (Inl (HTTPException 401 ''Invalid refresh token''), example_db_logged_out)"
    by blast
  from out g a b show ?thesis by simp
qed

subsection \<open>Refresh-token rotation\<close>

lemma store_refresh_token_Inr:
  assumes "store_refresh_token ext d parent_id raw user_agent now new_id = Inr d'"
  shows "\<exists>stored. store_user_agent user_agent = Inr stored
         \<and> d' = d\<lparr>refresh_tokens := refresh_tokens d @
             [\<lparr>rt_id = new_id, rt_parent_id = parent_id,
               rt_token_hash = hash_refresh_token ext raw, rt_user_agent = stored,
               rt_expires_at = now + REFRESH_TOKEN_DAYS * 86400000000\<rparr>]\<rparr>
         \<and> new_id \<notin> rt_id ` set (refresh_tokens d)
         \<and> hash_refresh_token ext raw \<notin> rt_token_hash ` set (refresh_tokens d)"
proof (cases "store_user_agent user_agent")
  case (Inl e)
  with assms show ?thesis by (simp add: store_refresh_token_def)
next
  case (Inr stored)
  with assms show ?thesis
    by (auto simp: store_refresh_token_def insert_row_def refresh_token_conflict_def Let_def
        list_ex_iff split: if_splits)
qed

lemma create_token_pair_Inr:
  assumes "create_token_pair ext d parent user_agent now new_id raw = (Inr pair, d')"
  shows "store_refresh_token ext d (p_id parent) raw user_agent now new_id = Inr d'
         \<and> tp_refresh_token pair = raw
         \<and> tp_access_token pair = create_access_token parent now"
  using assms by (auto simp: create_token_pair_def Let_def split: sum.splits)

lemma create_token_pair_unique:
  assumes "unique_token_hash d"
  shows "unique_token_hash (snd (create_token_pair ext d parent user_agent now new_id raw))"
proof (cases "store_refresh_token ext d (p_id parent) raw user_agent now new_id")
  case (Inl e)
  with assms show ?thesis by (simp add: create_token_pair_def Let_def)
next
  case (Inr d')
  from store_refresh_token_Inr[OF Inr] assms have "unique_token_hash d'"
    by (auto simp: unique_token_hash_def)
  with Inr show ?thesis by (simp add: create_token_pair_def Let_def)
qed

lemma delete_row_unique:
  assumes "unique_token_hash d"
  shows "unique_token_hash (d\<lparr>refresh_tokens := delete_row rt_id row (refresh_tokens d)\<rparr>)"
  using assms by (simp add: unique_token_hash_def delete_row_def distinct_map_filter)

lemma unique_token_hash_same:
  "unique_token_hash d \<Longrightarrow> refresh_tokens d' = refresh_tokens d \<Longrightarrow> unique_token_hash d'"
  by (simp add: unique_token_hash_def)

lemma handle_keeps_unique_token_hash:
  assumes inv: "unique_token_hash d"
  shows "unique_token_hash (handle ext now req d)"
proof (induction rule: handle_invariant[where P = unique_token_hash, OF inv, case_names
    signup login refresh logout api_key child pair set_active ask heartbeat])
  case signup
  show ?case
    by (rule unique_token_hash_same[OF inv])
       (auto simp: signup_def Let_def split: option.splits sum.splits)
next
  case (login email password user_agent new_id raw)
  show ?case using inv create_token_pair_unique[OF inv]
    by (auto simp: login_def split: option.splits)
next
  case (refresh token new_id raw)
  show ?case
    using inv delete_row_unique[OF inv] create_token_pair_unique[OF delete_row_unique[OF inv]]
    by (auto simp: refresh_def Let_def split: option.splits)
next
  case (logout credentials parent)
  show ?case using inv
    by (simp add: logout_result unique_token_hash_def distinct_map_filter)
next
  case api_key
  show ?case
    by (rule unique_token_hash_same[OF inv])
       (auto simp: create_api_key_def Let_def split: sum.splits)
next
  case child
  show ?case
    by (rule unique_token_hash_same[OF inv])
       (auto simp: create_child_def create_child_try_def Let_def
        split: sum.splits error.splits prod.splits)
next
  case pair
  show ?case
    by (rule unique_token_hash_same[OF inv]) (auto simp: pair_toy_def split: option.splits)
next
  case set_active
  show ?case
    by (rule unique_token_hash_same[OF inv])
       (auto simp: set_active_child_def split: option.splits)
next
  case ask
  show ?case
    by (rule unique_token_hash_same[OF inv])
       (auto simp: toy_ask_def Let_def split: option.splits sum.splits prod.splits)
next
  case heartbeat
  show ?case
    by (rule unique_token_hash_same[OF inv]) (auto simp: toy_heartbeat_def split: option.splits)
qed

lemma run_keeps_unique_token_hash:
  "unique_token_hash d \<Longrightarrow> unique_token_hash (run ext history d)"
proof (induction history arbitrary: d)
  case Nil
  then show ?case by simp
next
  case (Cons step history)
  obtain now req where "step = (now, req)" by (cases step)
  with Cons show ?case by (simp add: handle_keeps_unique_token_hash)
qed

text \<open>
  C2 (refresh tokens are single-use). When \<^verbatim>\<open>POST /auth/refresh\<close> succeeds, the stored row of
  the presented token has been deleted from the store on which the new pair is then issued
  and persisted, so that store holds no row with the token's hash. The new refresh token
  being another string than the one consumed, a second refresh with the same raw token
  fails with 401 \<^verbatim>\<open>Invalid refresh token\<close> at any later time. The \<^verbatim>\<open>unique\<close> constraint on
  \<^verbatim>\<open>token_hash\<close> that the statement assumes is kept by every request
  (\<open>run_keeps_unique_token_hash\<close>).
\<close>

theorem refresh_single_use:
  assumes succ: "refresh ext d token now new_id refresh_raw = (Inr pair, d')"
    and uniq: "unique_token_hash d"
    and fresh: "hash_refresh_token ext refresh_raw \<noteq> hash_refresh_token ext token"
  shows "\<exists>stored parent.
           find (\<lambda>r. rt_token_hash r = hash_refresh_token ext token) (refresh_tokens d)
             = Some stored
         \<and> find (\<lambda>r. rt_token_hash r = hash_refresh_token ext token)
             (delete_row rt_id stored (refresh_tokens d)) = None
         \<and> create_token_pair ext
             (d\<lparr>refresh_tokens := delete_row rt_id stored (refresh_tokens d)\<rparr>)
             parent None now new_id refresh_raw = (Inr pair, d')
         \<and> tp_refresh_token pair = refresh_raw
         \<and> refresh_tokens d' = delete_row rt_id stored (refresh_tokens d) @
             [\<lparr>rt_id = new_id, rt_parent_id = rt_parent_id stored,
               rt_token_hash = hash_refresh_token ext refresh_raw, rt_user_agent = None,
               rt_expires_at = now + REFRESH_TOKEN_DAYS * 86400000000\<rparr>]
         \<and> stored \<notin> set (refresh_tokens d')
         \<and> (\<forall>now' new_id' refresh_raw'.
               refresh ext d' token now' new_id' refresh_raw'
                 = (Inl (HTTPException 401 ''Invalid refresh token''), d'))"
proof -
  let ?h = "hash_refresh_token ext token"
  from succ obtain stored parent where
    st: "find (\<lambda>r. rt_token_hash r = ?h) (refresh_tokens d) = Some stored"
    and pa: "find (\<lambda>p. p_id p = rt_parent_id stored) (parents d) = Some parent"
    and cr: "create_token_pair ext (d\<lparr>refresh_tokens := delete_row rt_id stored (refresh_tokens d)\<rparr>)
               parent None now new_id refresh_raw = (Inr pair, d')"
    by (auto simp: refresh_def Let_def split: option.splits if_splits)
  from pa have pid: "p_id parent = rt_parent_id stored" by (auto dest: find_Some_set)
  from uniq have u: "distinct (map rt_token_hash (refresh_tokens d))"
    by (simp add: unique_token_hash_def)
  have gone: "find (\<lambda>r. rt_token_hash r = ?h) (delete_row rt_id stored (refresh_tokens d)) = None"
    unfolding delete_row_def using u st by (rule find_None_filter_out) simp
  from create_token_pair_Inr[OF cr] have sr: "store_refresh_token ext
      (d\<lparr>refresh_tokens := delete_row rt_id stored (refresh_tokens d)\<rparr>)
      (p_id parent) refresh_raw None now new_id = Inr d'"
    and raw: "tp_refresh_token pair = refresh_raw"
    by simp_all
  from store_refresh_token_Inr[OF sr] pid
  have rows: "refresh_tokens d' = delete_row rt_id stored (refresh_tokens d) @
             [\<lparr>rt_id = new_id, rt_parent_id = rt_parent_id stored,
               rt_token_hash = hash_refresh_token ext refresh_raw, rt_user_agent = None,
               rt_expires_at = now + REFRESH_TOKEN_DAYS * 86400000000\<rparr>]"
    by (auto simp: store_user_agent_def)
  have none: "find (\<lambda>r. rt_token_hash r = ?h) (refresh_tokens d') = None"
    using gone fresh by (auto simp: rows find_None_iff)
  from st have "rt_token_hash stored = ?h" by (auto dest: find_Some_set)
  with none have absent: "stored \<notin> set (refresh_tokens d')"
    by (auto simp: find_None_iff)
  from none have again: "\<forall>now' new_id' refresh_raw'.
               refresh ext d' token now' new_id' refresh_raw'
                 = (Inl (HTTPException 401 ''Invalid refresh token''), d')"
    by (simp add: refresh_def)
  from st gone cr raw rows absent again show ?thesis by blast
qed

theorem refresh_single_use_witness:
  "fst (refresh example_ext example_db ''r1'' 7 31 ''r2'')
     = Inr \<lparr>tp_access_token = create_access_token example_parent 7, tp_refresh_token = ''r2'',
            tp_token_type = ''bearer'', tp_expires_in = 900\<rparr>
   \<and> refresh_tokens (snd (refresh example_ext example_db ''r1'' 7 31 ''r2''))
     = [\<lparr>rt_id = 31, rt_parent_id = 1, rt_token_hash = rev ''r2'', rt_user_agent = None,
         rt_expires_at = 2592000000007\<rparr>]
   \<and> refresh example_ext (snd (refresh example_ext example_db ''r1'' 7 31 ''r2'')) ''r1'' 8 32 ''r3''
     = (Inl (HTTPException 401 ''Invalid refresh token''),
        snd (refresh example_ext example_db ''r1'' 7 31 ''r2''))"
proof -
  let ?pair = "\<lparr>tp_access_token = create_access_token example_parent 7, tp_refresh_token = ''r2'',
            tp_token_type = ''bearer'', tp_expires_in = 900\<rparr>"
  have first: "fst (refresh example_ext example_db ''r1'' 7 31 ''r2'') = Inr ?pair"
    by code_simp
  have rows: "refresh_tokens (snd (refresh example_ext example_db ''r1'' 7 31 ''r2''))
     = [\<lparr>rt_id = 31, rt_parent_id = 1, rt_token_hash = rev ''r2'', rt_user_agent = None,
         rt_expires_at = 2592000000007\<rparr>]"
    by code_simp
  from first have succ: "refresh example_ext example_db ''r1'' 7 31 ''r2''
      = (Inr ?pair, snd (refresh example_ext example_db ''r1'' 7 31 ''r2''))"
    by (simp add: prod_eq_iff)
  have uniq: "unique_token_hash example_db"
    by (simp add: unique_token_hash_def example_db_def)
  have fresh: "hash_refresh_token example_ext ''r2'' \<noteq> hash_refresh_token example_ext ''r1''"
    by (simp add: hash_refresh_token_def example_ext_def)
  from refresh_single_use[OF succ uniq fresh]
  have "refresh example_ext (snd (refresh example_ext example_db ''r1'' 7 31 ''r2'')) ''r1'' 8 32 ''r3''
     = (Inl (HTTPException 401 ''Invalid refresh token''),
        snd (refresh example_ext example_db ''r1'' 7 31 ''r2''))"
    by blast
  with first rows show ?thesis by simp
qed

subsection \<open>Every child keeps its analytics row\<close>

lemma children_have_analytics_iff:
  "children_have_analytics d \<longleftrightarrow>
     distinct (map a_id (child_analytics d)) \<and>
     set (map c_id (children d)) \<subseteq> set (map a_child_id (child_analytics d))"
proof -
  have "(\<forall>c \<in> set (children d). \<exists>a \<in> set (child_analytics d). a_child_id a = c_id c)
      \<longleftrightarrow> set (map c_id (children d)) \<subseteq> set (map a_child_id (child_analytics d))"
    by (simp add: subset_iff image_iff) metis
  then show ?thesis
    by (simp add: children_have_analytics_def list_all_iff list_ex_iff)
qed

lemma update_row_keeps_column:
  assumes "distinct (map pk rows)" and "r \<in> set rows" and "pk r' = pk r" and "f r' = f r"
  shows "map f (update_row pk r' rows) = map f rows"
  using assms
proof (induction rows)
  case Nil
  then show ?case by simp
next
  case (Cons x xs)
  show ?case
  proof (cases "pk x = pk r")
    case True
    with Cons.prems have "x = r" by (auto simp: image_iff)
    moreover from Cons.prems True have "\<forall>y \<in> set xs. pk y \<noteq> pk r'" by (auto simp: image_iff)
    then have "update_row pk r' xs = xs" by (induction xs) (auto simp: update_row_def)
    ultimately show ?thesis using Cons.prems by (simp add: update_row_def)
  next
    case False
    with Cons.prems have "r \<in> set xs" and "distinct (map pk xs)" by auto
    with Cons.IH Cons.prems have "map f (update_row pk r' xs) = map f xs" by simp
    with False Cons.prems show ?thesis by (simp add: update_row_def)
  qed
qed

lemma children_have_analytics_same:
  assumes "children_have_analytics d"
    and "child_analytics d' = child_analytics d"
    and "map c_id (children d') = map c_id (children d)"
  shows "children_have_analytics d'"
  using assms unfolding children_have_analytics_iff by simp

lemma update_analytics_rows:
  assumes "update_analytics rows cid now = Inr rows'"
  shows "rows' = rows
   \<or> (\<exists>a a'. a \<in> set rows \<and> a_id a' = a_id a \<and> a_child_id a' = a_child_id a
        \<and> rows' = update_row a_id a' rows)"
proof (cases "find (\<lambda>a. a_child_id a = cid) rows")
  case None
  with assms show ?thesis by (simp add: update_analytics_def)
next
  case (Some analytics)
  let ?a = "analytics\<lparr>a_total_questions := a_total_questions analytics + 1,
                       a_weekly_questions := a_weekly_questions analytics + 1,
                       a_last_active_date := Some (now div 86400000000)\<rparr>"
  from Some have "analytics \<in> set rows" by (auto dest: find_Some_set)
  moreover have "a_id ?a = a_id analytics \<and> a_child_id ?a = a_child_id analytics" by simp
  moreover from assms Some have "rows' = update_row a_id ?a rows"
    by (simp add: update_analytics_def split: if_splits)
  ultimately show ?thesis by blast
qed

lemma toy_ask_snd:
  "snd (toy_ask d question toy_uuid now new_id) = d
   \<or> (\<exists>cid rows'. update_analytics (child_analytics d) cid now = Inr rows'
         \<and> child_analytics (snd (toy_ask d question toy_uuid now new_id)) = rows')"
  by (auto simp: toy_ask_def Let_def split: option.splits sum.splits prod.splits if_splits)

lemma toy_ask_analytics:
  "child_analytics (snd (toy_ask d question toy_uuid now new_id)) = child_analytics d
   \<or> (\<exists>a a'. a \<in> set (child_analytics d) \<and> a_id a' = a_id a \<and> a_child_id a' = a_child_id a
        \<and> child_analytics (snd (toy_ask d question toy_uuid now new_id))
            = update_row a_id a' (child_analytics d))"
proof -
  from toy_ask_snd[of d question toy_uuid now new_id]
  consider "snd (toy_ask d question toy_uuid now new_id) = d"
    | cid rows' where "update_analytics (child_analytics d) cid now = Inr rows'"
        "child_analytics (snd (toy_ask d question toy_uuid now new_id)) = rows'"
    by blast
  then show ?thesis
  proof cases
    case 1
    then show ?thesis by simp
  next
    case 2
    from update_analytics_rows[OF 2(1)] 2(2) show ?thesis by simp
  qed
qed

lemma create_child_analytics:
  "snd (create_child d parent name age cid aid) = d
   \<or> (aid \<notin> a_id ` set (child_analytics d)
      \<and> (\<exists>child a. c_id child = cid \<and> a_child_id a = cid \<and> a_id a = aid
           \<and> snd (create_child d parent name age cid aid)
               = d\<lparr>children := children d @ [child],
                   child_analytics := child_analytics d @ [a]\<rparr>))"
proof (cases "create_child_try d parent name age cid aid")
  case (Inl e)
  then show ?thesis by (cases e) (simp_all add: create_child_def)
next
  case (Inr r)
  then have ok: "create_child_try d parent name age cid aid \<noteq> Inl IntegrityError"
    and fits: "fits_integer age"
    by (auto simp: create_child_try_def split: if_splits)
  from Inr obtain stored where stored: "pg_varchar 100 name = Inr stored"
    by (auto simp: create_child_try_def split: if_splits sum.splits)
  from ok fits stored have n: "cid \<notin> c_id ` set (children d)"
    "aid \<notin> a_id ` set (child_analytics d)"
    "cid \<notin> a_child_id ` set (child_analytics d)"
    unfolding create_child_try_IntegrityError_iff by auto
  show ?thesis
  proof (cases "3 \<le> length (filter (\<lambda>c. c_parent_id c = p_id parent) (children d))")
    case True
    then show ?thesis by (simp add: create_child_def)
  next
    case False
    let ?child = "\<lparr>c_id = cid, c_parent_id = p_id parent, c_toy_id = None,
                    c_child_name = stored, c_age = age\<rparr>"
    let ?a = "\<lparr>a_id = aid, a_child_id = cid, a_total_questions = 0,
                a_weekly_questions = 0, a_last_active_date = None\<rparr>"
    from False have "snd (create_child d parent name age cid aid)
        = d\<lparr>children := children d @ [?child], child_analytics := child_analytics d @ [?a]\<rparr>"
      by (simp add: create_child_def create_child_try_Inr[OF fits stored n])
    moreover have "c_id ?child = cid \<and> a_child_id ?a = cid \<and> a_id ?a = aid" by simp
    ultimately show ?thesis using n(2) by blast
  qed
qed

lemma handle_keeps_children_have_analytics:
  assumes inv: "children_have_analytics d"
  shows "children_have_analytics (handle ext now req d)"
proof (induction rule: handle_invariant[where P = children_have_analytics, OF inv, case_names
    signup login refresh logout api_key child pair set_active ask heartbeat])
  case signup
  show ?case
    by (rule children_have_analytics_same[OF inv])
       (auto simp: signup_def Let_def split: option.splits sum.splits)
next
  case (login email password user_agent new_id raw)
  obtain rows where "snd (create_token_pair ext d
      (the (find (\<lambda>p. p_email p = email) (parents d))) user_agent now new_id raw)
      = d\<lparr>refresh_tokens := rows\<rparr>"
    using create_token_pair_frame by blast
  then show ?case
    by (intro children_have_analytics_same[OF inv]) (auto simp: login_def split: option.splits)
next
  case (refresh token new_id raw)
  have "child_analytics (snd (create_token_pair ext d0 parent None now new_id raw))
          = child_analytics d0
        \<and> children (snd (create_token_pair ext d0 parent None now new_id raw)) = children d0"
    for d0 parent
  proof -
    obtain rows where "snd (create_token_pair ext d0 parent None now new_id raw)
        = d0\<lparr>refresh_tokens := rows\<rparr>"
      using create_token_pair_frame by blast
    then show ?thesis by simp
  qed
  then show ?case
    by (intro children_have_analytics_same[OF inv])
       (auto simp: refresh_def Let_def split: option.splits)
next
  case logout
  show ?case by (rule children_have_analytics_same[OF inv]) (simp_all add: logout_result)
next
  case api_key
  show ?case
    by (rule children_have_analytics_same[OF inv])
       (auto simp: create_api_key_def Let_def split: sum.splits)
next
  case (child credentials name age cid aid parent)
  from inv have dist: "distinct (map a_id (child_analytics d))"
    and sub: "set (map c_id (children d)) \<subseteq> set (map a_child_id (child_analytics d))"
    unfolding children_have_analytics_iff by simp_all
  from create_child_analytics[of d parent name age cid aid] show ?case
  proof (elim disjE exE conjE)
    assume "snd (create_child d parent name age cid aid) = d"
    with inv show ?thesis by simp
  next
    fix child' a
    assume fresh: "aid \<notin> a_id ` set (child_analytics d)"
      and ids: "c_id child' = cid" "a_child_id a = cid" "a_id a = aid"
      and eq: "snd (create_child d parent name age cid aid)
          = d\<lparr>children := children d @ [child'], child_analytics := child_analytics d @ [a]\<rparr>"
    from dist fresh ids(3)
    have "distinct (map a_id (child_analytics d @ [a]))" by simp
    moreover from sub ids(1,2)
    have "set (map c_id (children d @ [child']))
        \<subseteq> set (map a_child_id (child_analytics d @ [a]))"
      by auto
    ultimately show ?thesis
      unfolding children_have_analytics_iff eq by simp
  qed
next
  case (pair credentials toy_uuid child_id parent)
  show ?case
    by (rule children_have_analytics_same[OF inv])
       (auto simp: pair_toy_def map_pk_update_row split: option.splits)
next
  case set_active
  show ?case
    by (rule children_have_analytics_same[OF inv])
       (auto simp: set_active_child_def split: option.splits)
next
  case (ask api_key toy_uuid question new_id)
  from inv have dist: "distinct (map a_id (child_analytics d))"
    and sub: "set (map c_id (children d)) \<subseteq> set (map a_child_id (child_analytics d))"
    unfolding children_have_analytics_iff by simp_all
  from toy_ask_analytics[of d question toy_uuid now new_id]
  have "map a_id (child_analytics (snd (toy_ask d question toy_uuid now new_id)))
          = map a_id (child_analytics d)
      \<and> map a_child_id (child_analytics (snd (toy_ask d question toy_uuid now new_id)))
          = map a_child_id (child_analytics d)"
  proof (elim disjE exE conjE)
    fix a a'
    assume "a \<in> set (child_analytics d)" "a_id a' = a_id a" "a_child_id a' = a_child_id a"
      and eq: "child_analytics (snd (toy_ask d question toy_uuid now new_id))
            = update_row a_id a' (child_analytics d)"
    with dist show ?thesis
      by (simp add: map_pk_update_row update_row_keeps_column[where f = a_child_id])
  qed simp
  with dist sub show ?case
    unfolding children_have_analytics_iff by (simp add: toy_ask_children)
next
  case heartbeat
  show ?case
    by (rule children_have_analytics_same[OF inv])
       (auto simp: toy_heartbeat_def split: option.splits)
qed

lemma run_keeps_children_have_analytics:
  "children_have_analytics d \<Longrightarrow> children_have_analytics (run ext history d)"
proof (induction history arbitrary: d)
  case Nil
  then show ?case by simp
next
  case (Cons step history)
  obtain now req where "step = (now, req)" by (cases step)
  with Cons show ?case by (simp add: handle_keeps_children_have_analytics)
qed

text \<open>
  In a store with both properties, the child and the analytics row that \<^verbatim>\<open>toy_ask\<close> looks up
  for a toy's active child are there.
\<close>

lemma active_child_rows_exist:
  assumes "active_child_exists d" and "children_have_analytics d"
    and "toy \<in> set (toys d)" and "t_active_child_id toy = Some cid"
  shows "\<exists>child a. find (\<lambda>c. c_id c = cid) (children d) = Some child
           \<and> find (\<lambda>a. a_child_id a = cid) (child_analytics d) = Some a"
proof -
  from assms(1,3,4) have c: "cid \<in> set (map c_id (children d))"
    unfolding active_child_exists_iff by blast
  with assms(2) have a: "cid \<in> set (map a_child_id (child_analytics d))"
    unfolding children_have_analytics_iff by blast
  from c have "find (\<lambda>c. c_id c = cid) (children d) \<noteq> None"
    by (auto simp: find_None_iff)
  moreover from a have "find (\<lambda>a. a_child_id a = cid) (child_analytics d) \<noteq> None"
    by (auto simp: find_None_iff)
  ultimately show ?thesis by auto
qed

end
